theory Spec2Isabelle
  imports Complex_Main "HOL-Library.AList" "HOL-Library.Sublist" "HOL-Library.Multiset"
begin

section \<open>JavaScript values\<close>

text \<open>
  The server is JavaScript: every number is an IEEE double. The model keeps the three
  special values of a double apart from the finite ones, because the source's checks
  (\<^verbatim>\<open>typeof v === "number"\<close>, the comparisons with the world bounds, \<^verbatim>\<open>|| 1\<close>)
  treat them differently. Finite arithmetic is exact (rounding, overflow to infinity and
  the sign of zero are not modelled).
\<close>

datatype jsnum = Fin real | PInf | NInf | NaN

fun js_add :: "jsnum \<Rightarrow> jsnum \<Rightarrow> jsnum" where
  "js_add NaN _ = NaN"
| "js_add _ NaN = NaN"
| "js_add (Fin a) (Fin b) = Fin (a + b)"
| "js_add PInf NInf = NaN"
| "js_add NInf PInf = NaN"
| "js_add PInf _ = PInf"
| "js_add _ PInf = PInf"
| "js_add NInf _ = NInf"
| "js_add _ NInf = NInf"

fun js_neg :: "jsnum \<Rightarrow> jsnum" where
  "js_neg (Fin a) = Fin (- a)"
| "js_neg PInf = NInf"
| "js_neg NInf = PInf"
| "js_neg NaN = NaN"

definition js_sub :: "jsnum \<Rightarrow> jsnum \<Rightarrow> jsnum" where
  "js_sub a b = js_add a (js_neg b)"

fun js_mul :: "jsnum \<Rightarrow> jsnum \<Rightarrow> jsnum" where
  "js_mul NaN _ = NaN"
| "js_mul _ NaN = NaN"
| "js_mul (Fin a) (Fin b) = Fin (a * b)"
| "js_mul (Fin a) PInf = (if a = 0 then NaN else if 0 < a then PInf else NInf)"
| "js_mul (Fin a) NInf = (if a = 0 then NaN else if 0 < a then NInf else PInf)"
| "js_mul PInf (Fin b) = (if b = 0 then NaN else if 0 < b then PInf else NInf)"
| "js_mul NInf (Fin b) = (if b = 0 then NaN else if 0 < b then NInf else PInf)"
| "js_mul PInf PInf = PInf"
| "js_mul NInf NInf = PInf"
| "js_mul PInf NInf = NInf"
| "js_mul NInf PInf = NInf"

fun js_div :: "jsnum \<Rightarrow> jsnum \<Rightarrow> jsnum" where
  "js_div NaN _ = NaN"
| "js_div _ NaN = NaN"
| "js_div (Fin a) (Fin b) =
     (if b = 0 then (if a = 0 then NaN else if 0 < a then PInf else NInf) else Fin (a / b))"
| "js_div (Fin a) PInf = Fin 0"
| "js_div (Fin a) NInf = Fin 0"
| "js_div PInf (Fin b) = (if 0 \<le> b then PInf else NInf)"
| "js_div NInf (Fin b) = (if 0 \<le> b then NInf else PInf)"
| "js_div _ _ = NaN"

fun js_sqrt :: "jsnum \<Rightarrow> jsnum" where
  "js_sqrt (Fin a) = (if a < 0 then NaN else Fin (sqrt a))"
| "js_sqrt PInf = PInf"
| "js_sqrt NInf = NaN"
| "js_sqrt NaN = NaN"

text \<open>\<^verbatim>\<open>a < b\<close>: false as soon as one side is NaN.\<close>

fun js_less :: "jsnum \<Rightarrow> jsnum \<Rightarrow> bool" where
  "js_less NaN _ = False"
| "js_less _ NaN = False"
| "js_less (Fin a) (Fin b) = (a < b)"
| "js_less (Fin a) PInf = True"
| "js_less NInf (Fin b) = True"
| "js_less NInf PInf = True"
| "js_less _ _ = False"

text \<open>\<^verbatim>\<open>a >= b\<close>.\<close>

definition js_ge :: "jsnum \<Rightarrow> jsnum \<Rightarrow> bool" where
  "js_ge a b = (a \<noteq> NaN \<and> b \<noteq> NaN \<and> (js_less b a \<or> a = b))"

text \<open>Truthiness of a number: \<^verbatim>\<open>0\<close> and \<^verbatim>\<open>NaN\<close> are falsy.\<close>

definition js_truthy :: "jsnum \<Rightarrow> bool" where
  "js_truthy n = (n \<noteq> NaN \<and> n \<noteq> Fin 0)"

text \<open>
  A value read from a client payload: a number (\<^verbatim>\<open>typeof v === "number"\<close>, which NaN
  and the infinities satisfy) or anything else (undefined, null, a string, an object).
\<close>

datatype jsval = JNum jsnum | JOther

text \<open>
  The \<^verbatim>\<open>direction\<close> of a shoot payload: a falsy value (undefined, null, 0, the empty
  string), or a truthy value whose properties \<^verbatim>\<open>x\<close> and \<^verbatim>\<open>y\<close> read as the two values
  given (a truthy primitive has neither, so both read as undefined).
\<close>

datatype direction = DFalsy | DObj jsval jsval

text \<open>A display name is a string; the empty string is the falsy one.\<close>

definition str_truthy :: "string \<Rightarrow> bool" where
  "str_truthy s = (s \<noteq> [])"

section \<open>sockets/games/agarIo.js: data\<close>

definition WORLD_WIDTH :: jsnum where
  "WORLD_WIDTH = Fin 1080"

definition WORLD_HEIGHT :: jsnum where
  "WORLD_HEIGHT = Fin 1080"

text \<open>
  Socket ids, room ids and game ids are opaque keys; natural numbers stand for them
  (a key that names an inherited property of a JavaScript object, such as
  \<^verbatim>\<open>constructor\<close>, cannot be written in the model).
  An entry of \<^verbatim>\<open>room.players\<close>, as \<^verbatim>\<open>joinRoom\<close> pushes it:
\<close>

record lobby_player =
  lp_socketId :: nat
  lp_userName :: string
  isReady :: bool

text \<open>
  A value of \<^verbatim>\<open>room.playersMap\<close>: the same object with the fields that
  \<^verbatim>\<open>startAgarIoRoom\<close> adds. No function of the two source files reads these fields
  through \<^verbatim>\<open>room.players\<close>, so the two views are kept apart.
\<close>

record player =
  socketId :: nat
  userName :: string
  p_x :: jsnum
  p_y :: jsnum
  mass :: jsnum
  isDead :: bool
  lastDx :: jsnum
  lastDy :: jsnum

text \<open>
  A projectile record. \<open>ref\<close> is not a JavaScript field: it is the identity of the
  object, given when the object literal of \<^verbatim>\<open>handleShootBullet\<close> allocates it and kept
  when the record is recycled, so that the theorems can tell a reused record from a new
  one.
\<close>

record bullet =
  b_id :: nat
  ownerId :: nat
  b_x :: jsnum
  b_y :: jsnum
  vx :: jsnum
  vy :: jsnum
  radius :: jsnum
  traveled :: jsnum
  rangeLimit :: jsnum
  b_type :: string
  speed :: jsnum
  ref :: nat

text \<open>
  The fields that \<^verbatim>\<open>startAgarIoRoom\<close> assigns together and nothing removes: a room
  object has all of them or none. \<open>playersMap\<close> is a Map and \<open>alivePlayers\<close> a Set,
  both iterated in insertion order. \<open>allocated\<close> counts the projectile objects created
  since the session started (it numbers the \<open>ref\<close>s). \<open>bulletIdCounter\<close> is a double in
  the source and exact below \<open>2^53\<close>; here it is a natural number.
\<close>

record session =
  playersMap :: "(nat \<times> player) list"
  alivePlayers :: "nat list"
  bullets :: "bullet list"
  bulletIdCounter :: nat
  bulletPool :: "bullet list"
  winner :: "string option"
  allocated :: nat

record room =
  room_id :: nat
  players :: "lobby_player list"
  sess :: "session option"
  simulationInterval :: "nat option"
  broadcastInterval :: "nat option"

text \<open>
  A game object. \<open>rooms\<close> and \<open>activeRooms\<close> hold references to room objects, in
  key order; \<open>objs\<close> is the store of the room objects of this game and \<open>nextObj\<close>
  the next free address in it. \<open>io\<close> says whether \<^verbatim>\<open>game.io\<close> has been assigned.
\<close>

record game =
  game_id :: nat
  rooms :: "(nat \<times> nat) list"
  activeRooms :: "(nat \<times> nat) list"
  objs :: "nat \<Rightarrow> room"
  nextObj :: nat
  io :: bool

record player_view =
  pv_socketId :: nat
  pv_userName :: string
  pv_x :: jsnum
  pv_y :: jsnum
  pv_mass :: jsnum

record bullet_view =
  bv_id :: nat
  bv_ownerId :: nat
  bv_x :: jsnum
  bv_y :: jsnum
  bv_radius :: jsnum

record snapshot =
  sn_roomId :: nat
  sn_players :: "player_view list"
  sn_bullets :: "bullet_view list"
  sn_winner :: "string option"
  sn_worldSize :: "jsnum \<times> jsnum"

text \<open>
  What the server emits. The first two arguments of the channel events are the game id
  and the room id of the channel \<^verbatim>\<open>`${gameId}-${roomId}`\<close>.
\<close>

datatype event =
    GameStateUpdate nat nat snapshot
  | BulletCreated nat nat bullet
  | GameEnded nat nat nat "string option"
  | RoomList nat
  | RoomCount nat
  | Users "(nat \<times> string) list"

text \<open>
  The two periodic tasks of a session: the closures that \<^verbatim>\<open>setInterval\<close> receives hold
  the game (by its key in \<^verbatim>\<open>games\<close>) and the room object (by its address).
\<close>

datatype task = SimulationTask nat nat | BroadcastTask nat nat

text \<open>
  What all games share: the scheduled intervals, by handle, and the events emitted so
  far, oldest first.
\<close>

record server =
  timers :: "(nat \<times> task) list"
  nextTimer :: nat
  emitted :: "event list"

datatype error = TypeError

definition setInterval :: "task \<Rightarrow> server \<Rightarrow> nat \<times> server" where
  "setInterval t sv =
     (nextTimer sv, sv\<lparr>timers := timers sv @ [(nextTimer sv, t)], nextTimer := Suc (nextTimer sv)\<rparr>)"

definition clearInterval :: "nat \<Rightarrow> server \<Rightarrow> server" where
  "clearInterval h sv = sv\<lparr>timers := AList.delete h (timers sv)\<rparr>"

definition emit :: "event \<Rightarrow> server \<Rightarrow> server" where
  "emit e sv = sv\<lparr>emitted := emitted sv @ [e]\<rparr>"

definition put_room :: "nat \<Rightarrow> room \<Rightarrow> game \<Rightarrow> game" where
  "put_room a r g = g\<lparr>objs := (objs g)(a := r)\<rparr>"

section \<open>sockets/games/agarIo.js: functions\<close>

definition clamp :: "jsnum \<Rightarrow> jsnum \<Rightarrow> jsnum \<Rightarrow> jsnum" where
  "clamp v lo hi = (if js_less v lo then lo else if js_less hi v then hi else v)"

subsection \<open>endAgarIoRoom\<close>

text \<open>Lines 329 to 339: the live projectiles go to the pool, the players are reset.\<close>

definition drain_session :: "session \<Rightarrow> session" where
  "drain_session s =
     s\<lparr>bulletPool := bulletPool s @ bullets s,
       bullets := [],
       playersMap := map (\<lambda>(k, p). (k, p\<lparr>isDead := False, mass := Fin 10\<rparr>)) (playersMap s)\<rparr>"

definition clear_simulation :: "room \<Rightarrow> server \<Rightarrow> room \<times> server" where
  "clear_simulation r sv =
     (case simulationInterval r of
        Some h \<Rightarrow> (r\<lparr>simulationInterval := None\<rparr>, clearInterval h sv)
      | None \<Rightarrow> (r, sv))"

definition clear_broadcast :: "room \<Rightarrow> server \<Rightarrow> room \<times> server" where
  "clear_broadcast r sv =
     (case broadcastInterval r of
        Some h \<Rightarrow> (r\<lparr>broadcastInterval := None\<rparr>, clearInterval h sv)
      | None \<Rightarrow> (r, sv))"

text \<open>
  \<^verbatim>\<open>endAgarIoRoom(game, room, games)\<close>, the room given by its address. The last statement
  calls \<^verbatim>\<open>game.io.to\<close>, which throws when \<^verbatim>\<open>game.io\<close> is undefined (the model keeps
  no state after an error).
\<close>

definition endAgarIoRoom :: "game \<Rightarrow> nat \<Rightarrow> server \<Rightarrow> error + (game \<times> server)" where
  "endAgarIoRoom g a sv =
     (let r0 = objs g a;
          (r1, sv1) = clear_simulation r0 sv;
          (r2, sv2) = clear_broadcast r1 sv1;
          r3 = r2\<lparr>sess := map_option drain_session (sess r2)\<rparr>;
          g1 = put_room a r3 g;
          g2 = (if map_of (activeRooms g1) (room_id r3) \<noteq> None
                then g1\<lparr>activeRooms := AList.delete (room_id r3) (activeRooms g1)\<rparr>
                else g1)
      in if io g2
         then Inr (g2, emit (GameEnded (game_id g2) (room_id r3) (room_id r3)
                               (case sess r3 of None \<Rightarrow> None | Some s \<Rightarrow> winner s)) sv2)
         else Inl TypeError)"

subsection \<open>handlePlayerMove\<close>

text \<open>
  All games: the \<^verbatim>\<open>games\<close> object, the shared server state and the user list of
  \<^verbatim>\<open>sockets/index.js\<close>.
\<close>

record world =
  games :: "(nat \<times> game) list"
  server :: server
  userList :: "(nat \<times> string) list"

text \<open>\<^verbatim>\<open>game.activeRooms[roomId] || game.rooms[roomId]\<close>: the address of the room, if any.\<close>

definition find_room :: "game \<Rightarrow> nat \<Rightarrow> nat option" where
  "find_room g roomId =
     (case map_of (activeRooms g) roomId of
        Some a \<Rightarrow> Some a
      | None \<Rightarrow> map_of (rooms g) roomId)"

text \<open>The \<^verbatim>\<open>switch\<close> on the direction (a value that is no known string takes the default).\<close>

definition move_delta :: "string \<Rightarrow> real \<times> real" where
  "move_delta d =
     (if d = ''up-left'' then (- 4, - 4)
      else if d = ''up-right'' then (4, - 4)
      else if d = ''down-left'' then (- 4, 4)
      else if d = ''down-right'' then (4, 4)
      else if d = ''up'' then (0, - 4)
      else if d = ''down'' then (0, 4)
      else if d = ''left'' then (- 4, 0)
      else if d = ''right'' then (4, 0)
      else (0, 0))"

text \<open>Lines 127 to 169, on the player object.\<close>

definition move_player :: "string \<Rightarrow> player \<Rightarrow> player" where
  "move_player d p =
     (let (dx, dy) = move_delta d;
          p1 = p\<lparr>p_x := clamp (js_add (p_x p) (Fin dx)) (Fin 0) WORLD_WIDTH,
                 p_y := clamp (js_add (p_y p) (Fin dy)) (Fin 0) WORLD_HEIGHT\<rparr>
      in if js_truthy (Fin dx) \<or> js_truthy (Fin dy)
         then p1\<lparr>lastDx := Fin dx, lastDy := Fin dy\<rparr>
         else p1)"

text \<open>
  Lines 124 to 169 on the session: nothing happens for an unknown or dead player.
  The player object is changed in place, so its entry keeps its position in the Map.
\<close>

definition move_session :: "nat \<Rightarrow> string \<Rightarrow> session \<Rightarrow> session" where
  "move_session sock d s =
     (case map_of (playersMap s) sock of
        None \<Rightarrow> s
      | Some p \<Rightarrow>
          if isDead p then s
          else s\<lparr>playersMap := AList.update sock (move_player d p) (playersMap s)\<rparr>)"

record move_data =
  md_gameId :: nat
  md_roomId :: nat
  md_socket :: nat
  md_direction :: string

text \<open>
  \<^verbatim>\<open>room.playersMap.get\<close> throws a TypeError on a room object that has no
  \<^verbatim>\<open>playersMap\<close>, which is a lobby room that was never started.
\<close>

definition handlePlayerMove :: "world \<Rightarrow> move_data \<Rightarrow> error + world" where
  "handlePlayerMove w d =
     (case map_of (games w) (md_gameId d) of
        None \<Rightarrow> Inr w
      | Some g \<Rightarrow>
          (case find_room g (md_roomId d) of
             None \<Rightarrow> Inr w
           | Some a \<Rightarrow>
               (case sess (objs g a) of
                  None \<Rightarrow> Inl TypeError
                | Some s \<Rightarrow>
                    Inr (w\<lparr>games := AList.update (md_gameId d)
                          (put_room a ((objs g a)\<lparr>sess := Some (move_session (md_socket d) (md_direction d) s)\<rparr>) g)
                          (games w)\<rparr>))))"

subsection \<open>handleShootBullet\<close>

text \<open>The \<^verbatim>\<open>switch\<close> on the bullet type: speed, radius and range limit.\<close>

definition bullet_params :: "string \<Rightarrow> (jsnum \<times> jsnum \<times> jsnum) option" where
  "bullet_params t =
     (if t = ''fullyCharged'' then Some (Fin 30, Fin 25, PInf)
      else if t = ''charged'' then Some (Fin 30, Fin 5, PInf)
      else None)"

text \<open>Lines 212 to 215: the velocity; \<^verbatim>\<open>|| 1\<close> replaces a length that is 0 or NaN.\<close>

definition velocity :: "jsnum \<Rightarrow> jsnum \<Rightarrow> jsnum \<Rightarrow> jsnum \<times> jsnum" where
  "velocity dx dy speedValue =
     (let l = js_sqrt (js_add (js_mul dx dx) (js_mul dy dy));
          len = (if js_truthy l then l else Fin 1)
      in (js_mul (js_div dx len) speedValue, js_mul (js_div dy len) speedValue))"

text \<open>
  Lines 217 to 245: a record popped from the pool with every field overwritten, or a new
  object. The result is the record and the session without it.
\<close>

definition acquire ::
  "session \<Rightarrow> player \<Rightarrow> jsnum \<times> jsnum \<Rightarrow> jsnum \<Rightarrow> jsnum \<Rightarrow> string \<Rightarrow> jsnum \<Rightarrow> bullet \<times> session" where
  "acquire s p v rad rangeLim bulletType speedValue =
     (let fresh = \<lparr>b_id = bulletIdCounter s, ownerId = socketId p, b_x = p_x p, b_y = p_y p,
                    vx = fst v, vy = snd v, radius = rad, traveled = Fin 0,
                    rangeLimit = rangeLim, b_type = bulletType, speed = speedValue,
                    ref = allocated s\<rparr>
      in if bulletPool s \<noteq> []
         then (fresh\<lparr>ref := ref (last (bulletPool s))\<rparr>,
               s\<lparr>bulletPool := butlast (bulletPool s), bulletIdCounter := Suc (bulletIdCounter s)\<rparr>)
         else (fresh,
               s\<lparr>bulletIdCounter := Suc (bulletIdCounter s), allocated := Suc (allocated s)\<rparr>))"

text \<open>
  Lines 184 to 247 on the session: \<open>None\<close> for each early return, otherwise the new
  session and the record pushed on \<^verbatim>\<open>room.bullets\<close>.
\<close>

definition shoot_session :: "nat \<Rightarrow> string \<Rightarrow> direction \<Rightarrow> session \<Rightarrow> (session \<times> bullet) option" where
  "shoot_session sock bulletType dir s =
     (case map_of (playersMap s) sock of
        None \<Rightarrow> None
      | Some p \<Rightarrow>
          if isDead p then None
          else (case dir of
                  DFalsy \<Rightarrow> None
                | DObj JOther _ \<Rightarrow> None
                | DObj (JNum _) JOther \<Rightarrow> None
                | DObj (JNum dx) (JNum dy) \<Rightarrow>
                    if bulletType \<notin> set [''charged'', ''fullyCharged''] then None
                    else (case bullet_params bulletType of
                            None \<Rightarrow> None
                          | Some (speedValue, rad, rangeLim) \<Rightarrow>
                              (let (b, s1) = acquire s p (velocity dx dy speedValue) rad rangeLim
                                               bulletType speedValue
                               in Some (s1\<lparr>bullets := bullets s1 @ [b]\<rparr>, b)))))"

record shoot_data =
  sd_gameId :: nat
  sd_roomId :: nat
  sd_socket :: nat
  sd_bulletType :: string
  sd_direction :: direction

definition handleShootBullet :: "world \<Rightarrow> shoot_data \<Rightarrow> error + world" where
  "handleShootBullet w d =
     (case map_of (games w) (sd_gameId d) of
        None \<Rightarrow> Inr w
      | Some g \<Rightarrow>
          (case find_room g (sd_roomId d) of
             None \<Rightarrow> Inr w
           | Some a \<Rightarrow>
               (case sess (objs g a) of
                  None \<Rightarrow> Inl TypeError
                | Some s \<Rightarrow>
                    (case shoot_session (sd_socket d) (sd_bulletType d) (sd_direction d) s of
                       None \<Rightarrow> Inr w
                     | Some (s1, b) \<Rightarrow>
                         Inr (w\<lparr>games := AList.update (sd_gameId d)
                                  (put_room a ((objs g a)\<lparr>sess := Some s1\<rparr>) g) (games w),
                                server := emit (BulletCreated (game_id g) (room_id (objs g a)) b)
                                            (server w)\<rparr>)))))"

subsection \<open>updateBullets\<close>

text \<open>Lines 259 to 262.\<close>

definition advance :: "bullet \<Rightarrow> bullet" where
  "advance b =
     b\<lparr>b_x := js_add (b_x b) (vx b),
       b_y := js_add (b_y b) (vy b),
       traveled := js_add (traveled b) (speed b)\<rparr>"

text \<open>Lines 264 to 270: out of the world, or the range limit reached.\<close>

definition retired :: "bullet \<Rightarrow> bool" where
  "retired b =
     (js_less (b_x b) (Fin 0) \<or> js_less WORLD_WIDTH (b_x b) \<or>
      js_less (b_y b) (Fin 0) \<or> js_less WORLD_HEIGHT (b_y b) \<or>
      (rangeLimit b \<noteq> PInf \<and> js_ge (traveled b) (rangeLimit b)))"

text \<open>Lines 279 to 282.\<close>

definition hits :: "bullet \<Rightarrow> player \<Rightarrow> bool" where
  "hits b p =
     (let dx = js_sub (b_x b) (p_x p);
          dy = js_sub (b_y b) (p_y p);
          collisionDistance = js_add (radius b) (mass p)
      in js_less (js_add (js_mul dx dx) (js_mul dy dy))
                 (js_mul collisionDistance collisionDistance))"

text \<open>
  The loop over \<^verbatim>\<open>room.playersMap.values()\<close>: the first player, in the order of the
  Map, that is neither the owner nor dead and that the bullet hits is marked dead. The
  result is the Map after that and the player killed, or \<open>None\<close> without a collision.
\<close>

fun collide :: "bullet \<Rightarrow> (nat \<times> player) list \<Rightarrow> ((nat \<times> player) list \<times> player) option" where
  "collide b [] = None"
| "collide b ((k, p) # ps) =
     (if socketId p = ownerId b \<or> isDead p
      then map_option (\<lambda>(ps', q). ((k, p) # ps', q)) (collide b ps)
      else if hits b p then Some ((k, p\<lparr>isDead := True\<rparr>) # ps, p)
      else map_option (\<lambda>(ps', q). ((k, p) # ps', q)) (collide b ps))"

text \<open>
  The body of the \<^verbatim>\<open>for\<close> loop at index \<open>i\<close>. \<^verbatim>\<open>splice(i, 1)\<close> removes the element at
  \<open>i\<close>; a bullet that stays has been changed in place. (The loop only reaches indices
  below the length of the list, see \<open>bulletLoop_in_range\<close>; the first case is never
  taken.)
\<close>

definition bulletStep :: "nat \<Rightarrow> session \<Rightarrow> session" where
  "bulletStep i s =
     (case drop i (bullets s) of
        [] \<Rightarrow> s
      | b0 # rest \<Rightarrow>
          (let b = advance b0 in
           if retired b
           then s\<lparr>bulletPool := bulletPool s @ [b], bullets := take i (bullets s) @ rest\<rparr>
           else (case collide b (playersMap s) of
                   Some (pm, p) \<Rightarrow>
                     s\<lparr>playersMap := pm,
                       alivePlayers := removeAll (socketId p) (alivePlayers s),
                       bulletPool := bulletPool s @ [b],
                       bullets := take i (bullets s) @ rest\<rparr>
                 | None \<Rightarrow> s\<lparr>bullets := take i (bullets s) @ b # rest\<rparr>)))"

text \<open>
  \<^verbatim>\<open>for (let i = room.bullets.length - 1; i >= 0; i--)\<close>: \<open>bulletLoop n\<close> runs the
  iterations for \<open>i = n - 1\<close> down to \<open>0\<close>.
\<close>

fun bulletLoop :: "nat \<Rightarrow> session \<Rightarrow> session" where
  "bulletLoop 0 s = s"
| "bulletLoop (Suc i) s = bulletLoop i (bulletStep i s)"

text \<open>\<^verbatim>\<open>!room.winner\<close> is false when a winner with a non-empty name is recorded.\<close>

definition winner_set :: "session \<Rightarrow> bool" where
  "winner_set s = (case winner s of None \<Rightarrow> False | Some n \<Rightarrow> str_truthy n)"

text \<open>Lines 299 to 307.\<close>

definition record_winner :: "session \<Rightarrow> session" where
  "record_winner s =
     s\<lparr>winner :=
         (case alivePlayers s of
            [winnerId] \<Rightarrow>
              (case map_of (playersMap s) winnerId of
                 Some winnerPlayer \<Rightarrow> Some (userName winnerPlayer)
               | None \<Rightarrow> None)
          | _ \<Rightarrow> None)\<rparr>"

definition updateBullets :: "game \<Rightarrow> nat \<Rightarrow> server \<Rightarrow> error + (game \<times> server)" where
  "updateBullets g a sv =
     (case sess (objs g a) of
        None \<Rightarrow> Inr (g, sv)
      | Some s \<Rightarrow>
          (let s1 = bulletLoop (length (bullets s)) s in
           if length (alivePlayers s1) \<le> 1 \<and> \<not> winner_set s1
           then endAgarIoRoom (put_room a ((objs g a)\<lparr>sess := Some (record_winner s1)\<rparr>) g) a sv
           else Inr (put_room a ((objs g a)\<lparr>sess := Some s1\<rparr>) g, sv)))"

subsection \<open>broadcastGameState\<close>

definition view_player :: "player \<Rightarrow> player_view" where
  "view_player p =
     \<lparr>pv_socketId = socketId p, pv_userName = userName p, pv_x = p_x p, pv_y = p_y p,
      pv_mass = mass p\<rparr>"

definition view_bullet :: "bullet \<Rightarrow> bullet_view" where
  "view_bullet b =
     \<lparr>bv_id = b_id b, bv_ownerId = ownerId b, bv_x = b_x b, bv_y = b_y b,
      bv_radius = radius b\<rparr>"

text \<open>
  \<^verbatim>\<open>broadcastGameState(io, gameId, roomId, room)\<close>: the events it emits. It throws a
  TypeError when the room has no \<^verbatim>\<open>alivePlayers\<close> (\<^verbatim>\<open>Array.from(undefined)\<close>) and when
  an alive id has no entry in the Map (\<^verbatim>\<open>p.socketId\<close> of undefined).
\<close>

definition broadcastGameState :: "bool \<Rightarrow> nat \<Rightarrow> nat \<Rightarrow> room \<Rightarrow> error + event list" where
  "broadcastGameState io_given gameId roomId r =
     (if \<not> io_given then Inr []
      else (case sess r of
              None \<Rightarrow> Inl TypeError
            | Some s \<Rightarrow>
                (case those (map (\<lambda>k. map_option view_player (map_of (playersMap s) k))
                                 (alivePlayers s)) of
                   None \<Rightarrow> Inl TypeError
                 | Some playersData \<Rightarrow>
                     Inr [GameStateUpdate gameId roomId
                            \<lparr>sn_roomId = roomId,
                             sn_players = playersData,
                             sn_bullets = map view_bullet (bullets s),
                             sn_winner = (if winner_set s then winner s else None),
                             sn_worldSize = (WORLD_WIDTH, WORLD_HEIGHT)\<rparr>])))"

subsection \<open>startAgarIoRoom\<close>

text \<open>
  Lines 32 to 42 for the player at index \<open>i\<close> of \<^verbatim>\<open>room.players\<close>; \<open>rnd k\<close> is the
  result of the \<open>k\<close>-th call of \<^verbatim>\<open>Math.random()\<close>, a number from 0 up to but not
  including 1, for which \<^verbatim>\<open>~~\<close> is the floor. The product is the exact one, where
  the source truncates the rounded double.
\<close>

definition spawn_player :: "(nat \<Rightarrow> real) \<Rightarrow> nat \<Rightarrow> lobby_player \<Rightarrow> player" where
  "spawn_player rnd i lp =
     \<lparr>socketId = lp_socketId lp, userName = lp_userName lp,
      p_x = Fin (of_int \<lfloor>rnd (2 * i) * 1080\<rfloor>),
      p_y = Fin (of_int \<lfloor>rnd (2 * i + 1) * 1080\<rfloor>),
      mass = Fin 10, isDead = False, lastDx = Fin 0, lastDy = Fin 0\<rparr>"

text \<open>\<^verbatim>\<open>Set.prototype.add\<close>.\<close>

definition set_add :: "nat \<Rightarrow> nat list \<Rightarrow> nat list" where
  "set_add k ks = (if k \<in> set ks then ks else ks @ [k])"

definition start_session :: "(nat \<Rightarrow> real) \<Rightarrow> lobby_player list \<Rightarrow> session" where
  "start_session rnd ps =
     \<lparr>playersMap = fold (\<lambda>(i, lp). AList.update (lp_socketId lp) (spawn_player rnd i lp))
                        (enumerate 0 ps) [],
      alivePlayers = fold (\<lambda>lp. set_add (lp_socketId lp)) ps [],
      bullets = [],
      bulletIdCounter = 1,
      bulletPool = [],
      winner = None,
      allocated = 0\<rparr>"

definition startAgarIoRoom :: "(nat \<Rightarrow> real) \<Rightarrow> game \<Rightarrow> nat \<Rightarrow> server \<Rightarrow> game \<times> server" where
  "startAgarIoRoom rnd g a sv =
     (let r = objs g a;
          sv1 = (case simulationInterval r of Some h \<Rightarrow> clearInterval h sv | None \<Rightarrow> sv);
          sv2 = (case broadcastInterval r of Some h \<Rightarrow> clearInterval h sv1 | None \<Rightarrow> sv1);
          (h1, sv3) = setInterval (SimulationTask (game_id g) a) sv2;
          (h2, sv4) = setInterval (BroadcastTask (game_id g) a) sv3
      in (put_room a (r\<lparr>sess := Some (start_session rnd (players r)),
                        simulationInterval := Some h1,
                        broadcastInterval := Some h2\<rparr>) g,
          sv4))"

section \<open>utils/gameUtils.js\<close>

text \<open>A room object as the registry creates it, before it has an id or a player.\<close>

definition blank_room :: room where
  "blank_room =
     \<lparr>room_id = 0, players = [], sess = None, simulationInterval = None,
      broadcastInterval = None\<rparr>"

text \<open>
  Modelled from the spec: \<^verbatim>\<open>getGame\<close> is not among the source files. The spec's data
  model says that a GameType is created on first reference and lives for the process
  lifetime, so a game that does not exist yet is created, without rooms and without
  \<^verbatim>\<open>io\<close>.
\<close>

definition new_game :: "nat \<Rightarrow> game" where
  "new_game gameId =
     \<lparr>game_id = gameId, rooms = [], activeRooms = [], objs = (\<lambda>_. blank_room), nextObj = 0,
      io = False\<rparr>"

text \<open>
  Modelled from the spec: \<^verbatim>\<open>getGame\<close> returns the game of the id, creating it on first
  reference. The result is the game and the world that holds it.
\<close>

definition getGame :: "nat \<Rightarrow> world \<Rightarrow> game \<times> world" where
  "getGame gameId w =
     (case map_of (games w) gameId of
        Some g \<Rightarrow> (g, w)
      | None \<Rightarrow> (new_game gameId, w\<lparr>games := games w @ [(gameId, new_game gameId)]\<rparr>))"

text \<open>The lobby rooms of a game that have no occupant, as the handlers compute them.\<close>

definition emptyRooms :: "game \<Rightarrow> (nat \<times> nat) list" where
  "emptyRooms g = filter (\<lambda>(roomId, a). players (objs g a) = []) (rooms g)"

definition fresh_room_id :: "game \<Rightarrow> nat" where
  "fresh_room_id g = Suc (fold max (map fst (rooms g @ activeRooms g)) 0)"

text \<open>
  Modelled from the spec: \<^verbatim>\<open>ensureSingleEmptyRoom\<close> is not among the source files. The
  spec's contract of the registry (section 4.1): it guarantees that at least one
  zero-occupancy room exists, creating one with a fresh id if none does; idempotent.
\<close>

definition ensureSingleEmptyRoom :: "game \<Rightarrow> game" where
  "ensureSingleEmptyRoom g =
     (if emptyRooms g \<noteq> [] then g
      else g\<lparr>rooms := rooms g @ [(fresh_room_id g, nextObj g)],
             objs := (objs g)(nextObj g := blank_room\<lparr>room_id := fresh_room_id g\<rparr>),
             nextObj := Suc (nextObj g)\<rparr>)"

text \<open>
  Modelled from the spec: \<^verbatim>\<open>broadcastRooms\<close> is not among the source files. By section
  4.1 every mutation is followed by a broadcast of the current room list to the lobby
  channel of the game; it changes no room.
\<close>

definition broadcastRooms :: "nat \<Rightarrow> server \<Rightarrow> server" where
  "broadcastRooms gameId sv = emit (RoomList gameId) sv"


section \<open>sockets/index.js\<close>

text \<open>
  A handler that reads the id of the socket it is registered on takes it as an argument.
  Joining and leaving channels of the transport is not modelled. An uncaught TypeError
  in a handler ends the process, so the model keeps no state after it.
\<close>

definition put_game :: "nat \<Rightarrow> game \<Rightarrow> world \<Rightarrow> world" where
  "put_game gameId g w = w\<lparr>games := AList.update gameId g (games w)\<rparr>"

subsection \<open>requestRooms\<close>

text \<open>
  Lines 68 to 79: the socket joins the lobby channel of the game, then the handler calls
  \<^verbatim>\<open>ensureSingleEmptyRoom(gameId, games, io)\<close> and
  \<^verbatim>\<open>broadcastRooms(gameId, games, io)\<close>. It is the only handler of the file that
  gives a game its first room.

  Modelled from the spec: the source hands \<^verbatim>\<open>ensureSingleEmptyRoom\<close> the id of the
  game and the \<^verbatim>\<open>games\<close> object, and that function is not among the source files. It
  is taken to find the game as \<^verbatim>\<open>getGame\<close> does, creating it on first reference.
\<close>

definition requestRooms :: "world \<Rightarrow> nat \<Rightarrow> world" where
  "requestRooms w0 gameId =
     (let (g, w) = getGame gameId w0
      in (put_game gameId (ensureSingleEmptyRoom g) w)
           \<lparr>server := broadcastRooms gameId (server w)\<rparr>)"

subsection \<open>joinRoom\<close>

text \<open>\<^verbatim>\<open>userName || socket.userName || "Unknown"\<close>.\<close>

definition join_name :: "string \<Rightarrow> string \<Rightarrow> string" where
  "join_name given socketName =
     (if str_truthy given then given
      else if str_truthy socketName then socketName
      else ''Unknown'')"

definition joinRoom :: "world \<Rightarrow> nat \<Rightarrow> string \<Rightarrow> nat \<Rightarrow> nat \<Rightarrow> string \<Rightarrow> world" where
  "joinRoom w0 sock socketName gameId roomId given =
     (let (g, w) = getGame gameId w0 in
      case map_of (rooms g) roomId of
        None \<Rightarrow> w
      | Some a \<Rightarrow>
          (let r = objs g a in
           if list_ex (\<lambda>p. lp_socketId p = sock) (players r)
           then w\<lparr>server := broadcastRooms gameId (server w)\<rparr>
           else
             (let r1 = r\<lparr>players := players r @
                          [\<lparr>lp_socketId = sock, lp_userName = join_name given socketName,
                            isReady = False\<rparr>]\<rparr>;
                  g1 = put_room a r1 g;
                  g2 = (if length (players r1) = 1 then ensureSingleEmptyRoom g1 else g1)
              in (put_game gameId g2 w)\<lparr>server := broadcastRooms gameId (server w)\<rparr>)))"

subsection \<open>leaveRoom\<close>


subsection \<open>requestGameState\<close>

definition requestGameState :: "world \<Rightarrow> nat \<Rightarrow> nat \<Rightarrow> error + world" where
  "requestGameState w0 gameId roomId =
     (let (g, w) = getGame gameId w0 in
      case find_room g roomId of
        None \<Rightarrow> Inr w
      | Some a \<Rightarrow>
          (case broadcastGameState True gameId roomId (objs g a) of
             Inl e \<Rightarrow> Inl e
           | Inr evs \<Rightarrow> Inr (w\<lparr>server := (server w)\<lparr>emitted := emitted (server w) @ evs\<rparr>\<rparr>)))"

subsection \<open>endGame\<close>

definition endGame :: "world \<Rightarrow> nat \<Rightarrow> nat \<Rightarrow> error + world" where
  "endGame w0 gameId roomId =
     (let (g, w) = getGame gameId w0 in
      case map_of (activeRooms g) roomId of
        None \<Rightarrow> Inr w
      | Some a \<Rightarrow>
          (case endAgarIoRoom g a (server w) of
             Inl e \<Rightarrow> Inl e
           | Inr (g1, sv1) \<Rightarrow> Inr ((put_game gameId g1 w)\<lparr>server := sv1\<rparr>)))"

subsection \<open>disconnect\<close>

text \<open>\<^verbatim>\<open>findIndex\<close> and \<^verbatim>\<open>splice(playerIndex, 1)\<close>: the first match is removed.\<close>

fun remove_first :: "('a \<Rightarrow> bool) \<Rightarrow> 'a list \<Rightarrow> 'a list" where
  "remove_first P [] = []"
| "remove_first P (x # xs) = (if P x then xs else x # remove_first P xs)"

text \<open>Lines 293 to 313, for one entry of \<^verbatim>\<open>Object.entries(game.rooms)\<close>.\<close>

definition disconnect_lobby :: "nat \<Rightarrow> nat \<Rightarrow> nat \<times> nat \<Rightarrow> game \<times> server \<Rightarrow> game \<times> server" where
  "disconnect_lobby sock gameId e gs =
     (let (roomId, a) = e; (g, sv) = gs; r = objs g a in
      if list_ex (\<lambda>p. lp_socketId p = sock) (players r)
      then (let r1 = r\<lparr>players := remove_first (\<lambda>p. lp_socketId p = sock) (players r)\<rparr>;
                g1 = put_room a r1 g;
                g2 = (if players r1 = [] \<and> length (emptyRooms g1) > 1
                      then ensureSingleEmptyRoom (g1\<lparr>rooms := AList.delete roomId (rooms g1)\<rparr>)
                      else g1)
            in (g2, broadcastRooms gameId sv))
      else (g, sv))"

text \<open>Lines 316 to 337, for one entry of \<^verbatim>\<open>Object.entries(game.activeRooms)\<close>.\<close>

definition disconnect_active :: "nat \<Rightarrow> nat \<Rightarrow> nat \<times> nat \<Rightarrow> game \<times> server \<Rightarrow> game \<times> server" where
  "disconnect_active sock gameId e gs =
     (let (roomId, a) = e; (g, sv) = gs; r = objs g a in
      if list_ex (\<lambda>p. lp_socketId p = sock) (players r)
      then (let r1 = r\<lparr>players := remove_first (\<lambda>p. lp_socketId p = sock) (players r)\<rparr>;
                g1 = put_room a r1 g
            in if players r1 = []
               then (g1\<lparr>activeRooms := AList.delete roomId (activeRooms g1)\<rparr>,
                     broadcastRooms gameId sv)
               else (g1, sv))
      else (g, sv))"

text \<open>
  The body of \<^verbatim>\<open>Object.entries(games).forEach\<close> for one game: both loops run over the
  entries the objects had when the loop started.
\<close>

definition disconnect_game :: "nat \<Rightarrow> nat \<Rightarrow> game \<times> server \<Rightarrow> game \<times> server" where
  "disconnect_game sock gameId gs =
     (let gs1 = fold (disconnect_lobby sock gameId) (rooms (fst gs)) gs
      in fold (disconnect_active sock gameId) (activeRooms (fst gs1)) gs1)"

fun disconnect_games :: "nat \<Rightarrow> (nat \<times> game) list \<Rightarrow> server \<Rightarrow> (nat \<times> game) list \<times> server" where
  "disconnect_games sock [] sv = ([], sv)"
| "disconnect_games sock ((gameId, g) # rest) sv =
     (let (g1, sv1) = disconnect_game sock gameId (g, sv);
          (rest1, sv2) = disconnect_games sock rest sv1
      in ((gameId, g1) # rest1, sv2))"

definition disconnect :: "world \<Rightarrow> nat \<Rightarrow> world" where
  "disconnect w sock =
     (let users = AList.delete sock (userList w);
          (gs, sv) = disconnect_games sock (games w) (emit (Users users) (server w))
      in \<lparr>games = gs, server = sv, userList = users\<rparr>)"

subsection \<open>The periodic tasks\<close>

text \<open>
  One run of the callback of the interval with handle \<open>h\<close> (lines 64 to 72 of
  \<^verbatim>\<open>agarIo.js\<close>); a handle that is not scheduled runs nothing.
\<close>

definition fire :: "world \<Rightarrow> nat \<Rightarrow> error + world" where
  "fire w h =
     (case map_of (timers (server w)) h of
        None \<Rightarrow> Inr w
      | Some (SimulationTask gameId a) \<Rightarrow>
          (case map_of (games w) gameId of
             None \<Rightarrow> Inr w
           | Some g \<Rightarrow>
               (case updateBullets g a (server w) of
                  Inl e \<Rightarrow> Inl e
                | Inr (g1, sv1) \<Rightarrow> Inr ((put_game gameId g1 w)\<lparr>server := sv1\<rparr>)))
      | Some (BroadcastTask gameId a) \<Rightarrow>
          (case map_of (games w) gameId of
             None \<Rightarrow> Inr w
           | Some g \<Rightarrow>
               (case broadcastGameState (io g) (game_id g) (room_id (objs g a)) (objs g a) of
                  Inl e \<Rightarrow> Inl e
                | Inr evs \<Rightarrow> Inr (w\<lparr>server := (server w)\<lparr>emitted := emitted (server w) @ evs\<rparr>\<rparr>))))"

section \<open>Notions used in the statements\<close>

text \<open>The \<^verbatim>\<open>gameEnded\<close> events among the events emitted, and their number.\<close>

fun is_gameEnded :: "event \<Rightarrow> bool" where
  "is_gameEnded (GameEnded _ _ _ _) = True"
| "is_gameEnded _ = False"

definition ended_count :: "server \<Rightarrow> nat" where
  "ended_count sv = length (filter is_gameEnded (emitted sv))"

text \<open>
  What \<^verbatim>\<open>endAgarIoRoom\<close> leaves of the server, the room and the game when \<^verbatim>\<open>game.io\<close>
  is set, and the event it emits (see \<open>endAgarIoRoom_Inr\<close>).
\<close>

definition cleared :: "room \<Rightarrow> server \<Rightarrow> server" where
  "cleared r sv = snd (clear_broadcast (fst (clear_simulation r sv)) (snd (clear_simulation r sv)))"

definition ended_room :: "room \<Rightarrow> room" where
  "ended_room r = r\<lparr>simulationInterval := None, broadcastInterval := None,
      sess := map_option drain_session (sess r)\<rparr>"

definition ended_game :: "game \<Rightarrow> nat \<Rightarrow> game" where
  "ended_game g a = (put_room a (ended_room (objs g a)) g)
     \<lparr>activeRooms := AList.delete (room_id (objs g a)) (activeRooms g)\<rparr>"

definition end_event :: "game \<Rightarrow> nat \<Rightarrow> event" where
  "end_event g a = GameEnded (game_id g) (room_id (objs g a)) (room_id (objs g a))
            (case sess (objs g a) of None \<Rightarrow> None | Some s \<Rightarrow> winner s)"

subsection \<open>An example: one game, a room with two players, started\<close>

definition ex_players :: "lobby_player list" where
  "ex_players =
     [\<lparr>lp_socketId = 1, lp_userName = ''ann'', isReady = True\<rparr>,
      \<lparr>lp_socketId = 2, lp_userName = ''bob'', isReady = True\<rparr>]"

definition ex_rnd :: "nat \<Rightarrow> real" where
  "ex_rnd k = (if k = 2 then 14 / 27 else 1 / 2)"

definition ex_game0 :: game where
  "ex_game0 =
     \<lparr>game_id = 1, rooms = [(8, 1)], activeRooms = [(7, 0)],
      objs = (\<lambda>_. blank_room)(0 := blank_room\<lparr>room_id := 7, players := ex_players\<rparr>,
                               1 := blank_room\<lparr>room_id := 8\<rparr>),
      nextObj = 2, io = True\<rparr>"

definition ex_server0 :: server where
  "ex_server0 = \<lparr>timers = [], nextTimer = 0, emitted = []\<rparr>"

definition ex_game1 :: game where
  "ex_game1 = fst (startAgarIoRoom ex_rnd ex_game0 0 ex_server0)"

definition ex_server1 :: server where
  "ex_server1 = snd (startAgarIoRoom ex_rnd ex_game0 0 ex_server0)"

definition ex_world1 :: world where
  "ex_world1 = \<lparr>games = [(1, ex_game1)], server = ex_server1, userList = [(1, ''ann''), (2, ''bob'')]\<rparr>"

definition ann :: player where
  "ann = \<lparr>socketId = 1, userName = ''ann'', p_x = Fin 540, p_y = Fin 540, mass = Fin 10,
          isDead = False, lastDx = Fin 0, lastDy = Fin 0\<rparr>"

definition bob :: player where
  "bob = \<lparr>socketId = 2, userName = ''bob'', p_x = Fin 560, p_y = Fin 540, mass = Fin 10,
          isDead = False, lastDx = Fin 0, lastDy = Fin 0\<rparr>"

definition ex_session1 :: session where
  "ex_session1 =
     \<lparr>playersMap = [(1, ann), (2, bob)], alivePlayers = [1, 2], bullets = [],
      bulletIdCounter = 1, bulletPool = [], winner = None, allocated = 0\<rparr>"

text \<open>Events sent for room 8 of the example, a lobby room that was never started.\<close>

definition ex_move_lobby :: move_data where
  "ex_move_lobby = \<lparr>md_gameId = 1, md_roomId = 8, md_socket = 1, md_direction = ''up''\<rparr>"

definition ex_shoot_lobby :: shoot_data where
  "ex_shoot_lobby =
     \<lparr>sd_gameId = 1, sd_roomId = 8, sd_socket = 1, sd_bulletType = ''charged'',
      sd_direction = DObj (JNum (Fin 1)) (JNum (Fin 0))\<rparr>"

text \<open>
  The spec's condition on a direction, a finite 2D vector, and the condition of the
  source, under which a shot is accepted in a started session.
\<close>

fun finite_direction :: "direction \<Rightarrow> bool" where
  "finite_direction (DObj (JNum (Fin _)) (JNum (Fin _))) = True"
| "finite_direction _ = False"

fun numeric_direction :: "direction \<Rightarrow> bool" where
  "numeric_direction (DObj (JNum _) (JNum _)) = True"
| "numeric_direction _ = False"

definition shooter_alive :: "session \<Rightarrow> nat \<Rightarrow> bool" where
  "shooter_alive s sock =
     (case map_of (playersMap s) sock of None \<Rightarrow> False | Some p \<Rightarrow> \<not> isDead p)"

definition shot_accepted :: "session \<Rightarrow> shoot_data \<Rightarrow> bool" where
  "shot_accepted s d =
     (shooter_alive s (sd_socket d) \<and>
      sd_bulletType d \<in> set [''charged'', ''fullyCharged''] \<and>
      numeric_direction (sd_direction d))"

text \<open>A shot of the first player of the example whose direction has a NaN component.\<close>

definition ex_shoot_nan :: shoot_data where
  "ex_shoot_nan =
     \<lparr>sd_gameId = 1, sd_roomId = 7, sd_socket = 1, sd_bulletType = ''charged'',
      sd_direction = DObj (JNum NaN) (JNum (Fin 0))\<rparr>"

subsection \<open>The order of a tick\<close>

text \<open>
  What the loop body does with one projectile, apart from the live list: the record if it
  stays live, and the session after it.
\<close>

definition resolve :: "bullet \<Rightarrow> session \<Rightarrow> bullet option \<times> session" where
  "resolve b0 s =
     (let b = advance b0 in
      if retired b then (None, s\<lparr>bulletPool := bulletPool s @ [b]\<rparr>)
      else (case collide b (playersMap s) of
              Some (pm, p) \<Rightarrow>
                (None, s\<lparr>playersMap := pm,
                         alivePlayers := removeAll (socketId p) (alivePlayers s),
                         bulletPool := bulletPool s @ [b]\<rparr>)
            | None \<Rightarrow> (Some b, s)))"

text \<open>
  Resolving the projectiles of a list one after the other, first element first: the
  records that stay live, in the order visited, and the session at the end.
\<close>

fun visit :: "bullet list \<Rightarrow> session \<Rightarrow> bullet list \<times> session" where
  "visit [] s = ([], s)"
| "visit (b # bs) s =
     (let (k, s1) = resolve b s; (ks, s2) = visit bs s1
      in (case k of None \<Rightarrow> ks | Some b1 \<Rightarrow> b1 # ks, s2))"

text \<open>The tick of the spec: the live list is visited in insertion order.\<close>

definition tick_in_order :: "session \<Rightarrow> session" where
  "tick_in_order s = (let (ks, s1) = visit (bullets s) s in s1\<lparr>bullets := ks\<rparr>)"

text \<open>The live list visited last inserted first, the survivors kept in insertion order.\<close>

definition tick_reversed :: "session \<Rightarrow> session" where
  "tick_reversed s = (let (ks, s1) = visit (rev (bullets s)) s in s1\<lparr>bullets := rev ks\<rparr>)"

text \<open>
  The example after the first player has fired twice towards the second, who stands 20
  to the right.
\<close>

definition ex_shot :: "nat \<Rightarrow> nat \<Rightarrow> bullet" where
  "ex_shot n r =
     \<lparr>b_id = n, ownerId = 1, b_x = Fin 540, b_y = Fin 540, vx = Fin 30, vy = Fin 0,
      radius = Fin 5, traveled = Fin 0, rangeLimit = PInf, b_type = ''charged'', speed = Fin 30,
      ref = r\<rparr>"

definition ex_two_shots :: session where
  "ex_two_shots =
     ex_session1\<lparr>bullets := [ex_shot 1 0, ex_shot 2 1], bulletIdCounter := 3, allocated := 2\<rparr>"

subsection \<open>The win condition\<close>

text \<open>The winner the spec asks for: the name of the sole player alive, or none.\<close>

definition sole_winner :: "session \<Rightarrow> string option" where
  "sole_winner s =
     (case alivePlayers s of
        [k] \<Rightarrow> map_option userName (map_of (playersMap s) k)
      | _ \<Rightarrow> None)"

text \<open>The example after each of the two players has fired once at the other.\<close>

definition ex_duel :: session where
  "ex_duel =
     ex_session1\<lparr>bullets := [ex_shot 1 0,
                     (ex_shot 2 1)\<lparr>ownerId := 2, b_x := Fin 560, vx := Fin (- 30)\<rparr>],
                  bulletIdCounter := 3, allocated := 2\<rparr>"

definition ex_duel_game :: game where
  "ex_duel_game = put_room 0 ((objs ex_game1 0)\<lparr>sess := Some ex_duel\<rparr>) ex_game1"

subsection \<open>The runs of a session\<close>

text \<open>
  \<open>session_run s ids\<close>: the session \<open>s\<close> is reached from \<^verbatim>\<open>startAgarIoRoom\<close> by moves,
  shots, projectile loops, recordings of the winner and teardowns, in any order, and
  \<open>ids\<close> are the ids of the projectiles created on the way, oldest first. A wrapper of
  the source applies these steps to the session of a room: \<^verbatim>\<open>handlePlayerMove\<close> the
  first, \<^verbatim>\<open>handleShootBullet\<close> the second, \<^verbatim>\<open>updateBullets\<close> the third and, when the
  game is won, the fourth and fifth, \<^verbatim>\<open>endAgarIoRoom\<close> the fifth.
\<close>

inductive session_run :: "session \<Rightarrow> nat list \<Rightarrow> bool" where
  started: "session_run (start_session rnd ps) []"
| moved: "session_run s ids \<Longrightarrow> session_run (move_session sock d s) ids"
| shot: "session_run s ids \<Longrightarrow> shoot_session sock t dir s = Some (s1, b) \<Longrightarrow>
         session_run s1 (ids @ [b_id b])"
| ticked: "session_run s ids \<Longrightarrow> session_run (bulletLoop (length (bullets s)) s) ids"
| won: "session_run s ids \<Longrightarrow> session_run (record_winner s) ids"
| ended: "session_run s ids \<Longrightarrow> session_run (drain_session s) ids"

text \<open>
  The example after the first player has fired, a tick has run (the projectile has
  killed the second player and gone to the pool), and the first player has fired again.
\<close>

definition ex_one_shot :: session where
  "ex_one_shot = ex_session1\<lparr>bullets := [ex_shot 1 0], bulletIdCounter := 2, allocated := 1\<rparr>"

definition ex_after_tick :: session where
  "ex_after_tick =
     ex_one_shot\<lparr>playersMap := [(1, ann), (2, bob\<lparr>isDead := True\<rparr>)], alivePlayers := [1],
        bullets := [], bulletPool := [advance (ex_shot 1 0)]\<rparr>"

definition ex_recycled :: session where
  "ex_recycled =
     ex_session1\<lparr>playersMap := [(1, ann), (2, bob\<lparr>isDead := True\<rparr>)], alivePlayers := [1],
        bullets := [ex_shot 2 0], bulletIdCounter := 3, allocated := 1\<rparr>"

text \<open>
  The invariants of a run: the ids created so far are \<open>1\<close> up to the counter and the
  live projectiles carry distinct ids among them; the records in the live list and the
  pool are the records allocated, each once, and every allocation came with a shot.
\<close>

definition ids_ok :: "session \<Rightarrow> nat list \<Rightarrow> bool" where
  "ids_ok s ids =
     (ids = [1..<bulletIdCounter s] \<and> 1 \<le> bulletIdCounter s \<and>
      distinct (map b_id (bullets s)) \<and> set (map b_id (bullets s)) \<subseteq> set ids)"

definition pool_ok :: "session \<Rightarrow> nat list \<Rightarrow> bool" where
  "pool_ok s ids =
     (mset (map ref (bullets s @ bulletPool s)) = mset [0..<allocated s] \<and>
      allocated s \<le> length ids)"

subsection \<open>The registry of lobby rooms\<close>

text \<open>
  A game has a lobby room without occupants. The keys of \<^verbatim>\<open>game.rooms\<close> are distinct,
  as the keys of a JavaScript object are.
\<close>

definition has_empty :: "game \<Rightarrow> bool" where
  "has_empty g = (emptyRooms g \<noteq> [])"




text \<open>
  What \<^verbatim>\<open>joinRoom\<close> and \<^verbatim>\<open>leaveRoom\<close> do to the game they name, when it exists (see
  \<open>joinRoom_game\<close> and \<open>leaveRoom_game\<close>).
\<close>

definition join_game :: "nat \<Rightarrow> string \<Rightarrow> nat \<Rightarrow> game \<Rightarrow> game" where
  "join_game sock name roomId g =
     (case map_of (rooms g) roomId of
        None \<Rightarrow> g
      | Some a \<Rightarrow>
          if list_ex (\<lambda>p. lp_socketId p = sock) (players (objs g a)) then g
          else (let r1 = (objs g a)\<lparr>players := players (objs g a) @
                          [\<lparr>lp_socketId = sock, lp_userName = name, isReady = False\<rparr>]\<rparr>;
                    g1 = put_room a r1 g
                in if length (players r1) = 1 then ensureSingleEmptyRoom g1 else g1))"




text \<open>
  From \<open>g\<close> to \<open>g1\<close> the lobby rooms and the empty ones among them are the same. From
  \<open>w\<close> to \<open>w1\<close> this holds of every game, and a game that is new has no room. It is what
  the handlers of a session do to the registry: they change the session of a room, the
  scheduler and the events sent (see \<open>move_lobby_same\<close>, \<open>shoot_lobby_same\<close> and
  \<open>endGame_lobby_same\<close>).
\<close>

definition lobby_kept :: "game \<Rightarrow> game \<Rightarrow> bool" where
  "lobby_kept g g1 = (rooms g1 = rooms g \<and> emptyRooms g1 = emptyRooms g)"

definition lobby_same :: "world \<Rightarrow> world \<Rightarrow> bool" where
  "lobby_same w w1 =
     (\<forall>k g1. map_of (games w1) k = Some g1 \<longrightarrow>
        (case map_of (games w) k of None \<Rightarrow> rooms g1 = [] | Some g \<Rightarrow> lobby_kept g g1))"


text \<open>
  An example: after boot a client requests the rooms of game 1, socket 5 joins room 1 and
  socket 6 joins room 2. The game then has the rooms 1 and 2, with one occupant each, and
  the empty room 3.
\<close>

definition ex_boot :: world where
  "ex_boot = \<lparr>games = [], server = ex_server0, userList = []\<rparr>"

definition ex_lobby :: world where
  "ex_lobby = joinRoom (joinRoom (requestRooms ex_boot 1) 5 [] 1 1 ''ann'') 6 [] 1 2 ''bob''"


subsection \<open>What a disconnect leaves alone\<close>

text \<open>The room \<open>r1\<close> is the room \<open>r\<close> but for its \<open>players\<close> array.\<close>

definition same_session :: "room \<Rightarrow> room \<Rightarrow> bool" where
  "same_session r r1 = (r1 = r\<lparr>players := players r1\<rparr>)"

text \<open>Every room object that \<open>g\<close> has allocated is in \<open>g1\<close>, the same but for its players.\<close>

definition game_frame :: "game \<Rightarrow> game \<Rightarrow> bool" where
  "game_frame g g1 =
     (nextObj g \<le> nextObj g1 \<and> list_all (\<lambda>a. same_session (objs g a) (objs g1 a)) [0..<nextObj g])"

text \<open>From \<open>sv\<close> to \<open>sv1\<close> no interval was set or cleared and no \<^verbatim>\<open>gameEnded\<close> emitted.\<close>

definition quiet :: "server \<Rightarrow> server \<Rightarrow> bool" where
  "quiet sv sv1 =
     (timers sv1 = timers sv \<and> nextTimer sv1 = nextTimer sv \<and>
      filter is_gameEnded (emitted sv1) = filter is_gameEnded (emitted sv))"

text \<open>The example after the second player has disconnected.\<close>

definition ex_world_left :: world where
  "ex_world_left = disconnect ex_world1 2"

definition ex_game_left :: game where
  "ex_game_left =
     put_room 0 ((objs ex_game1 0)\<lparr>players := [\<lparr>lp_socketId = 1, lp_userName = ''ann'', isReady = True\<rparr>]\<rparr>)
       ex_game1"

definition ex_game_gone :: game where
  "ex_game_gone =
     (put_room 0 ((objs ex_game1 0)\<lparr>players := []\<rparr>) ex_game1)\<lparr>activeRooms := []\<rparr>"

section \<open>Ending a session twice\<close>

lemma drain_session_idem: "drain_session (drain_session s) = drain_session s"
  by (simp add: drain_session_def comp_def case_prod_unfold)

lemma map_of_delete_same: "map_of (AList.delete k al) k = None"
  by (simp add: AList.delete_eq map_of_eq_None_iff image_iff) 

lemma delete_absent: "map_of al k = None \<Longrightarrow> AList.delete k al = al"
  by (induction al) (auto split: if_splits)

lemma map_of_delete_other: "h \<noteq> k \<Longrightarrow> map_of (AList.delete k al) h = map_of al h"
  by (induction al) auto

lemma drain_winner: "winner (drain_session s) = winner s"
  by (simp add: drain_session_def)

lemma fst_clear_simulation: "fst (clear_simulation r sv) = r\<lparr>simulationInterval := None\<rparr>"
  by (cases r) (simp add: clear_simulation_def split: option.splits)

lemma fst_clear_broadcast: "fst (clear_broadcast r sv) = r\<lparr>broadcastInterval := None\<rparr>"
  by (cases r) (simp add: clear_broadcast_def split: option.splits)

lemma endAgarIoRoom_Inr:
  assumes "io g"
  shows "endAgarIoRoom g a sv = Inr (ended_game g a, emit (end_event g a) (cleared (objs g a) sv))"
proof -
  obtain r1 sv1 where c1: "clear_simulation (objs g a) sv = (r1, sv1)"
    by (cases "clear_simulation (objs g a) sv")
  obtain r2 sv2 where c2: "clear_broadcast r1 sv1 = (r2, sv2)"
    by (cases "clear_broadcast r1 sv1")
  have r1: "r1 = (objs g a)\<lparr>simulationInterval := None\<rparr>"
    using fst_clear_simulation [of "objs g a" sv] c1 by simp
  have r2: "r2 = (objs g a)\<lparr>simulationInterval := None, broadcastInterval := None\<rparr>"
    using fst_clear_broadcast [of r1 sv1] c2 r1 by simp
  have sv2: "sv2 = cleared (objs g a) sv"
    using c1 c2 by (simp add: cleared_def)
  show ?thesis
    using assms
    by (cases "sess (objs g a)")
       (simp_all add: endAgarIoRoom_def c1 c2 r2 sv2 Let_def put_room_def ended_game_def
          ended_room_def end_event_def delete_absent drain_winner)
qed

lemma ended_game_idem: "ended_game (ended_game g a) a = ended_game g a"
  by (simp add: ended_game_def ended_room_def put_room_def option.map_comp comp_def drain_session_idem
      delete_absent map_of_delete_same)

lemma cleared_ended: "cleared (objs (ended_game g a) a) sv = sv"
  by (simp add: cleared_def ended_game_def ended_room_def put_room_def clear_simulation_def clear_broadcast_def)

lemma end_event_ended: "end_event (ended_game g a) a = end_event g a"
  by (cases "sess (objs g a)") (simp_all add: end_event_def ended_game_def ended_room_def put_room_def drain_winner)

lemma timers_cleared:
  "simulationInterval r = Some h \<or> broadcastInterval r = Some h \<Longrightarrow> map_of (timers (cleared r sv)) h = None"
  apply (cases "simulationInterval r"; cases "broadcastInterval r")
  apply (auto simp add: cleared_def clear_simulation_def clear_broadcast_def clearInterval_def map_of_delete_same)
  subgoal for k by (cases "h = k") (simp_all add: map_of_delete_same map_of_delete_other)
  done


lemma ex_start_session: "start_session ex_rnd ex_players = ex_session1"
  by (simp add: start_session_def ex_players_def ex_rnd_def spawn_player_def set_add_def
        ex_session1_def ann_def bob_def enumerate_eq_zip)

lemma ex_game1_eq:
  "ex_game1 = ex_game0\<lparr>objs := (objs ex_game0)
      (0 := \<lparr>room_id = 7, players = ex_players, sess = Some ex_session1,
             simulationInterval = Some 0, broadcastInterval = Some 1\<rparr>)\<rparr>"
  by (simp add: ex_game1_def startAgarIoRoom_def ex_game0_def ex_server0_def blank_room_def
        setInterval_def put_room_def ex_start_session Let_def)

lemma ex_server1_eq:
  "ex_server1 = \<lparr>timers = [(0, SimulationTask 1 0), (1, BroadcastTask 1 0)], nextTimer = 2,
                  emitted = []\<rparr>"
  by (simp add: ex_server1_def startAgarIoRoom_def ex_game0_def ex_server0_def blank_room_def
        setInterval_def put_room_def Let_def)

text \<open>
  Claim C1 says that over two calls of \<^verbatim>\<open>endAgarIoRoom\<close> exactly one \<^verbatim>\<open>gameEnded\<close>
  event is emitted. The function emits the event unconditionally, so this fails: the
  statement below is the claim's count, refuted on the example session.
\<close>

theorem end_twice_counterexample:
  "\<not> (\<forall>g a sv g1 sv1 g2 sv2.
        endAgarIoRoom g a sv = Inr (g1, sv1) \<longrightarrow> endAgarIoRoom g1 a sv1 = Inr (g2, sv2) \<longrightarrow>
        ended_count sv2 = ended_count sv + 1)"
proof
  assume h: "\<forall>g a sv g1 sv1 g2 sv2.
        endAgarIoRoom g a sv = Inr (g1, sv1) \<longrightarrow> endAgarIoRoom g1 a sv1 = Inr (g2, sv2) \<longrightarrow>
        ended_count sv2 = ended_count sv + 1"
  have io1: "io ex_game1" by (simp add: ex_game1_eq ex_game0_def)
  have io2: "io (ended_game ex_game1 0)" using io1 by (simp add: ended_game_def put_room_def)
  note a = endAgarIoRoom_Inr [OF io1, of 0 ex_server1]
  note b = endAgarIoRoom_Inr [OF io2, of 0 "emit (end_event ex_game1 0) (cleared (objs ex_game1 0) ex_server1)"]
  from h a b have "ended_count (emit (end_event (ended_game ex_game1 0) 0)
       (cleared (objs (ended_game ex_game1 0) 0) (emit (end_event ex_game1 0) (cleared (objs ex_game1 0) ex_server1))))
       = ended_count ex_server1 + 1"
    by blast
  then show False
    by (simp add: ended_count_def emit_def cleared_def clear_simulation_def clear_broadcast_def
          clearInterval_def end_event_def ex_server1_eq split: option.splits)
qed

text \<open>
  Claim C1 as amended. When \<^verbatim>\<open>game.io\<close> is set, a second call of \<^verbatim>\<open>endAgarIoRoom\<close> on the
  same room leaves the game and the server as the first call left them, except that it
  emits the \<^verbatim>\<open>gameEnded\<close> event again: two calls emit two events. After them both
  interval fields are null and no handle the room held is scheduled. Through the
  \<^verbatim>\<open>endGame\<close> handler a second request is dropped, because the first call removed the room
  from \<^verbatim>\<open>activeRooms\<close>: two requests emit exactly one event.
\<close>

theorem end_twice:
  assumes "map_of (games w) gameId = Some g" and "io g"
  shows "\<exists>g1 sv1 e. endAgarIoRoom g a (server w) = Inr (g1, sv1) \<and> is_gameEnded e
          \<and> endAgarIoRoom g1 a sv1 = Inr (g1, emit e sv1)
          \<and> ended_count (emit e sv1) = ended_count (server w) + 2
          \<and> simulationInterval (objs g1 a) = None \<and> broadcastInterval (objs g1 a) = None
          \<and> (\<forall>h. simulationInterval (objs g a) = Some h \<or> broadcastInterval (objs g a) = Some h
                \<longrightarrow> map_of (timers sv1) h = None)
          \<and> (map_of (activeRooms g) (room_id (objs g a)) = Some a \<longrightarrow>
               (\<exists>w1. endGame w gameId (room_id (objs g a)) = Inr w1
                   \<and> endGame w1 gameId (room_id (objs g a)) = Inr w1
                   \<and> server w1 = sv1
                   \<and> ended_count (server w1) = ended_count (server w) + 1))"
proof -
  let ?g1 = "ended_game g a"
  let ?e = "end_event g a"
  let ?sv1 = "emit ?e (cleared (objs g a) (server w))"
  let ?rid = "room_id (objs g a)"
  have io1: "io ?g1" using assms(2) by (simp add: ended_game_def put_room_def)
  have first: "endAgarIoRoom g a (server w) = Inr (?g1, ?sv1)"
    by (rule endAgarIoRoom_Inr [OF assms(2)])
  have second: "endAgarIoRoom ?g1 a ?sv1 = Inr (?g1, emit ?e ?sv1)"
    using endAgarIoRoom_Inr [OF io1, of a ?sv1]
    by (simp add: ended_game_idem cleared_ended end_event_ended)
  have ev: "is_gameEnded ?e" by (simp add: end_event_def)
  have em: "emitted (cleared r sv) = emitted sv" for r sv
    by (simp add: cleared_def clear_simulation_def clear_broadcast_def clearInterval_def
          split: option.splits)
  have cnt1: "ended_count ?sv1 = ended_count (server w) + 1"
    by (simp add: ended_count_def emit_def em end_event_def)
  have cnt2: "ended_count (emit ?e ?sv1) = ended_count (server w) + 2"
    using cnt1 by (simp add: ended_count_def emit_def end_event_def)
  have iv: "simulationInterval (objs ?g1 a) = None \<and> broadcastInterval (objs ?g1 a) = None"
    by (simp add: ended_game_def ended_room_def put_room_def)
  have tm: "\<forall>h. simulationInterval (objs g a) = Some h \<or> broadcastInterval (objs g a) = Some h
                \<longrightarrow> map_of (timers ?sv1) h = None"
    using timers_cleared [of "objs g a" _ "server w"] by (simp add: emit_def)
  have handler: "\<exists>w1. endGame w gameId ?rid = Inr w1 \<and> endGame w1 gameId ?rid = Inr w1
                   \<and> server w1 = ?sv1
                   \<and> ended_count (server w1) = ended_count (server w) + 1"
    if act: "map_of (activeRooms g) ?rid = Some a"
  proof -
    let ?w1 = "(put_game gameId ?g1 w)\<lparr>server := ?sv1\<rparr>"
    have e1: "endGame w gameId ?rid = Inr ?w1"
      using assms(1) act first by (simp add: endGame_def getGame_def)
    have look: "map_of (games ?w1) gameId = Some ?g1"
      by (simp add: put_game_def update_conv')
    have gone: "map_of (activeRooms ?g1) ?rid = None"
      by (simp add: ended_game_def map_of_delete_same)
    have e2: "endGame ?w1 gameId ?rid = Inr ?w1"
      using look gone by (simp add: endGame_def getGame_def)
    show ?thesis using e1 e2 cnt1 by auto
  qed
  show ?thesis
    using first second ev cnt2 iv tm handler by blast
qed

theorem end_twice_witness:
  "\<exists>w1. endGame ex_world1 1 7 = Inr w1 \<and> endGame w1 1 7 = Inr w1
      \<and> ended_count (server w1) = 1
      \<and> map_of (timers (server w1)) 0 = None \<and> map_of (timers (server w1)) 1 = None"
proof -
  have h1: "map_of (games ex_world1) 1 = Some ex_game1" by (simp add: ex_world1_def)
  have h2: "io ex_game1" by (simp add: ex_game1_eq ex_game0_def)
  have rid: "room_id (objs ex_game1 0) = 7" by (simp add: ex_game1_eq)
  have h3: "map_of (activeRooms ex_game1) (room_id (objs ex_game1 0)) = Some 0"
    by (simp add: ex_game1_eq ex_game0_def)
  have c0: "ended_count (server ex_world1) = 0"
    by (simp add: ex_world1_def ex_server1_eq ended_count_def)
  have s0: "simulationInterval (objs ex_game1 0) = Some 0" by (simp add: ex_game1_eq)
  have b0: "broadcastInterval (objs ex_game1 0) = Some 1" by (simp add: ex_game1_eq)
  from end_twice [OF h1 h2, of 0] obtain sv1 where
    tm: "\<forall>h. simulationInterval (objs ex_game1 0) = Some h \<or> broadcastInterval (objs ex_game1 0) = Some h
                \<longrightarrow> map_of (timers sv1) h = None"
    and hd: "map_of (activeRooms ex_game1) (room_id (objs ex_game1 0)) = Some 0 \<longrightarrow>
               (\<exists>w1. endGame ex_world1 1 (room_id (objs ex_game1 0)) = Inr w1
                   \<and> endGame w1 1 (room_id (objs ex_game1 0)) = Inr w1
                   \<and> server w1 = sv1
                   \<and> ended_count (server w1) = ended_count (server ex_world1) + 1)"
    by blast
  from hd h3 obtain w1 where
    "endGame ex_world1 1 (room_id (objs ex_game1 0)) = Inr w1"
    "endGame w1 1 (room_id (objs ex_game1 0)) = Inr w1"
    "server w1 = sv1"
    "ended_count (server w1) = ended_count (server ex_world1) + 1"
    by blast
  then show ?thesis
    using tm s0 b0 rid c0 by auto
qed

section \<open>The registry invariant\<close>










lemma put_game_lookup:
  "map_of (games (put_game k g w)) k1 = (if k1 = k then Some g else map_of (games w) k1)"
  by (simp add: put_game_def update_conv')

lemma getGame_known: "map_of (games w) k = Some g \<Longrightarrow> getGame k w = (g, w)"
  by (simp add: getGame_def)






lemma joinRoom_game:
  assumes "map_of (games w) gameId = Some g"
  shows "map_of (games (joinRoom w sock socketName gameId roomId given)) k =
         (if k = gameId then Some (join_game sock (join_name given socketName) roomId g)
          else map_of (games w) k)"
  using assms
  by (auto simp: joinRoom_def getGame_known join_game_def Let_def put_game_lookup
           split: option.splits)






lemma disconnect_lobby_found:
  assumes "list_ex (\<lambda>p. lp_socketId p = sock) (players (objs g a))"
  shows "fst (disconnect_lobby sock gameId (k, a) (g, sv)) =
     (if players ((objs g a)\<lparr>players := remove_first (\<lambda>p. lp_socketId p = sock) (players (objs g a))\<rparr>) = [] \<and>
         length (emptyRooms (put_room a ((objs g a)\<lparr>players := remove_first (\<lambda>p. lp_socketId p = sock) (players (objs g a))\<rparr>) g)) > 1
      then ensureSingleEmptyRoom
             ((put_room a ((objs g a)\<lparr>players := remove_first (\<lambda>p. lp_socketId p = sock) (players (objs g a))\<rparr>) g)
               \<lparr>rooms := AList.delete k (rooms (put_room a ((objs g a)\<lparr>players := remove_first (\<lambda>p. lp_socketId p = sock) (players (objs g a))\<rparr>) g))\<rparr>)
      else put_room a ((objs g a)\<lparr>players := remove_first (\<lambda>p. lp_socketId p = sock) (players (objs g a))\<rparr>) g)"
  using assms by (simp add: disconnect_lobby_def Let_def)







lemma disconnect_games_lookup:
  "map_of gs k = Some g \<Longrightarrow>
   \<exists>sv1. map_of (fst (disconnect_games sock gs sv)) k = Some (fst (disconnect_game sock k (g, sv1)))"
proof (induction gs arbitrary: sv)
  case Nil
  then show ?case by simp
next
  case (Cons e gs)
  obtain k0 g0 where e: "e = (k0, g0)" by (cases e)
  show ?case
  proof (cases "k0 = k")
    case True
    with Cons.prems e have "g0 = g" by simp
    with True e show ?thesis
      by (auto simp: case_prod_unfold Let_def)
  next
    case False
    with Cons.prems e have "map_of gs k = Some g" by simp
    from Cons.IH [OF this] False e show ?thesis
      by (simp add: case_prod_unfold Let_def)
  qed
qed

lemma disconnect_lookup:
  assumes "map_of (games w) k = Some g"
  shows "\<exists>sv1. map_of (games (disconnect w sock)) k = Some (fst (disconnect_game sock k (g, sv1)))"
  using disconnect_games_lookup [OF assms] by (simp add: disconnect_def case_prod_unfold Let_def)

subsection \<open>The registry along a run\<close>

lemma getGame_lookup:
  "map_of (games (snd (getGame gameId w))) k =
   (if k = gameId then Some (fst (getGame gameId w)) else map_of (games w) k)"
  by (cases "map_of (games w) gameId") (auto simp: getGame_def map_add_def split: option.splits)

lemma requestRooms_lookup:
  "map_of (games (requestRooms w gameId)) k =
   (if k = gameId then Some (ensureSingleEmptyRoom (fst (getGame gameId w))) else map_of (games w) k)"
  by (simp add: requestRooms_def case_prod_unfold Let_def put_game_lookup getGame_lookup)

lemma join_game_no_rooms: "rooms g = [] \<Longrightarrow> join_game sock name roomId g = g"
  by (simp add: join_game_def)


lemma joinRoom_lookup:
  "map_of (games (joinRoom w sock socketName gameId roomId given)) k =
   (if k = gameId
    then Some (join_game sock (join_name given socketName) roomId (fst (getGame gameId w)))
    else map_of (games w) k)"
proof (cases "map_of (games w) gameId")
  case (Some g0)
  from joinRoom_game [OF Some] Some show ?thesis by (simp add: getGame_def)
next
  case None
  have f: "fst (getGame gameId w) = new_game gameId" using None by (simp add: getGame_def)
  then have "joinRoom w sock socketName gameId roomId given = snd (getGame gameId w)"
    by (simp add: joinRoom_def case_prod_unfold new_game_def)
  then show ?thesis
    by (simp add: getGame_lookup f join_game_no_rooms new_game_def)
qed
















text \<open>
  The handlers of a session leave the lobbies alone: they are steps \<open>elsewhere\<close> of a
  run.
\<close>

lemma lobby_kept_refl: "lobby_kept g g"
  by (simp add: lobby_kept_def)

lemma lobby_same_refl: "lobby_same w w"
  by (auto simp: lobby_same_def lobby_kept_refl)

lemma lobby_kept_session: "lobby_kept g (put_room a ((objs g a)\<lparr>sess := s\<rparr>) g)"
  by (auto simp: lobby_kept_def emptyRooms_def put_room_def intro: filter_cong)

lemma lobby_same_session:
  assumes "map_of (games w) gameId = Some g"
    and "games w1 = AList.update gameId (put_room a ((objs g a)\<lparr>sess := s\<rparr>) g) (games w)"
  shows "lobby_same w w1"
  unfolding lobby_same_def
proof (intro allI impI)
  fix k g2
  assume "map_of (games w1) k = Some g2"
  with assms(2) have "(if k = gameId then Some (put_room a ((objs g a)\<lparr>sess := s\<rparr>) g)
                       else map_of (games w) k) = Some g2"
    by (simp add: update_conv')
  with assms(1) show "case map_of (games w) k of None \<Rightarrow> rooms g2 = [] | Some g \<Rightarrow> lobby_kept g g2"
    by (auto simp: lobby_kept_refl lobby_kept_session split: if_splits)
qed

lemma move_lobby_same:
  assumes "handlePlayerMove w d = Inr w1"
  shows "lobby_same w w1"
proof (cases "map_of (games w) (md_gameId d)")
  case None
  with assms show ?thesis by (simp add: handlePlayerMove_def lobby_same_refl)
next
  case (Some g)
  show ?thesis
  proof (cases "find_room g (md_roomId d)")
    case None
    with assms Some show ?thesis by (simp add: handlePlayerMove_def lobby_same_refl)
  next
    case a: (Some a)
    with assms Some obtain s where
      "games w1 = AList.update (md_gameId d) (put_room a ((objs g a)\<lparr>sess := Some s\<rparr>) g) (games w)"
      by (auto simp: handlePlayerMove_def split: option.splits)
    with Some show ?thesis by (rule lobby_same_session)
  qed
qed

lemma shoot_lobby_same:
  assumes "handleShootBullet w d = Inr w1"
  shows "lobby_same w w1"
proof (cases "map_of (games w) (sd_gameId d)")
  case None
  with assms show ?thesis by (simp add: handleShootBullet_def lobby_same_refl)
next
  case (Some g)
  show ?thesis
  proof (cases "find_room g (sd_roomId d)")
    case None
    with assms Some show ?thesis by (simp add: handleShootBullet_def lobby_same_refl)
  next
    case a: (Some a)
    with assms Some have "w1 = w \<or> (\<exists>s.
      games w1 = AList.update (sd_gameId d) (put_room a ((objs g a)\<lparr>sess := Some s\<rparr>) g) (games w))"
      by (auto simp: handleShootBullet_def split: option.splits)
    with Some show ?thesis by (auto simp: lobby_same_refl intro: lobby_same_session)
  qed
qed

lemma lobby_kept_ended: "lobby_kept g (ended_game g a)"
  by (auto simp: lobby_kept_def emptyRooms_def ended_game_def ended_room_def put_room_def
           intro: filter_cong)

lemma endAgarIoRoom_lobby:
  assumes "endAgarIoRoom g a sv = Inr (g1, sv1)"
  shows "lobby_kept g g1"
proof (cases "io g")
  case True
  from endAgarIoRoom_Inr [OF True, of a sv] assms show ?thesis
    by (simp add: lobby_kept_ended)
next
  case False
  then have "endAgarIoRoom g a sv = Inl TypeError"
    by (simp add: endAgarIoRoom_def Let_def case_prod_unfold put_room_def)
  with assms show ?thesis by simp
qed

lemma lobby_same_getGame: "lobby_same w (snd (getGame gameId w))"
  unfolding lobby_same_def
proof (intro allI impI)
  fix k g1
  assume "map_of (games (snd (getGame gameId w))) k = Some g1"
  then show "case map_of (games w) k of None \<Rightarrow> rooms g1 = [] | Some g \<Rightarrow> lobby_kept g g1"
    by (auto simp: getGame_lookup getGame_def new_game_def lobby_kept_refl
             split: if_splits option.splits)
qed

lemma endGame_lobby_same:
  assumes "endGame w gameId roomId = Inr w1"
  shows "lobby_same w w1"
  unfolding lobby_same_def
proof (intro allI impI)
  fix k g1
  assume l: "map_of (games w1) k = Some g1"
  let ?g = "fst (getGame gameId w)"
  let ?w = "snd (getGame gameId w)"
  have "map_of (games w1) k = map_of (games ?w) k \<or>
        (k = gameId \<and> (\<exists>g2. map_of (games w1) k = Some g2 \<and> lobby_kept ?g g2))"
    using assms
    by (auto simp: endGame_def Let_def case_prod_unfold put_game_lookup
             split: option.splits sum.splits if_splits dest: endAgarIoRoom_lobby)
  then show "case map_of (games w) k of None \<Rightarrow> rooms g1 = [] | Some g \<Rightarrow> lobby_kept g g1"
  proof
    assume "map_of (games w1) k = map_of (games ?w) k"
    with l have "map_of (games ?w) k = Some g1" by simp
    with lobby_same_getGame [of w gameId] show ?thesis
      unfolding lobby_same_def by blast
  next
    assume "k = gameId \<and> (\<exists>g2. map_of (games w1) k = Some g2 \<and> lobby_kept ?g g2)"
    with l have k: "k = gameId" and kept: "lobby_kept ?g g1" by auto
    show ?thesis
    proof (cases "map_of (games w) gameId")
      case None
      with kept have "rooms g1 = []"
        by (simp add: getGame_def new_game_def lobby_kept_def)
      with None k show ?thesis by simp
    next
      case (Some g)
      with kept have "lobby_kept g g1" by (simp add: getGame_def)
      with Some k show ?thesis by simp
    qed
  qed
qed

subsection \<open>The example\<close>








text \<open>
  A \<^verbatim>\<open>joinRoom\<close> that names a game which does not exist creates it, without a room:
  such a game has no lobby yet, and gets its first room from \<^verbatim>\<open>requestRooms\<close>.
\<close>

lemma ex_lobby_one_game: "map_of (games ex_lobby) 2 = None"
  by (simp add: ex_lobby_def joinRoom_lookup requestRooms_lookup ex_boot_def)

lemma join_unknown_game:
  "map_of (games (joinRoom ex_lobby 7 [] 2 1 ''cy'')) 2 = Some (new_game 2) \<and>
   rooms (new_game 2) = [] \<and> \<not> has_empty (new_game 2)"
proof -
  have "fst (getGame 2 ex_lobby) = new_game 2"
    using ex_lobby_one_game by (simp add: getGame_def)
  moreover have "rooms (new_game 2) = []" by (simp add: new_game_def)
  ultimately show ?thesis
    by (simp add: joinRoom_lookup join_game_no_rooms has_empty_def emptyRooms_def)
qed




section \<open>The win condition of a tick\<close>

lemma winner_bulletStep: "winner (bulletStep i s) = winner s"
  by (simp add: bulletStep_def Let_def split: list.splits option.splits prod.splits)

lemma winner_bulletLoop: "winner (bulletLoop n s) = winner s"
  by (induction n arbitrary: s) (simp_all add: winner_bulletStep)

lemma winner_set_bulletLoop: "winner_set (bulletLoop n s) = winner_set s"
  by (simp add: winner_set_def winner_bulletLoop)

lemma record_winner_sole: "winner (record_winner s) = sole_winner s"
  by (simp add: record_winner_def sole_winner_def split: list.splits option.splits)

lemma ex_duel_reached:
  "\<exists>s1 b1 b2. shoot_session 1 ''charged'' (DObj (JNum (Fin 1)) (JNum (Fin 0))) ex_session1 = Some (s1, b1)
      \<and> shoot_session 2 ''charged'' (DObj (JNum (Fin (- 1))) (JNum (Fin 0))) s1 = Some (ex_duel, b2)"
  by (simp add: shoot_session_def ex_session1_def ann_def bob_def bullet_params_def velocity_def
        acquire_def js_truthy_def Let_def ex_shot_def ex_duel_def)

lemma ex_duel_loop:
  "bulletLoop (length (bullets ex_duel)) ex_duel =
     ex_duel\<lparr>playersMap := [(1, ann\<lparr>isDead := True\<rparr>), (2, bob\<lparr>isDead := True\<rparr>)], alivePlayers := [],
        bullets := [],
        bulletPool := [advance ((ex_shot 2 1)\<lparr>ownerId := 2, b_x := Fin 560, vx := Fin (- 30)\<rparr>),
                       advance (ex_shot 1 0)]\<rparr>"
  by (simp add: ex_duel_def ex_session1_def bulletStep_def advance_def retired_def
        ex_shot_def WORLD_WIDTH_def WORLD_HEIGHT_def hits_def js_sub_def ann_def bob_def Let_def
        numeral_2_eq_2)

text \<open>
  Claim C3. A tick of a started session whose game has its \<^verbatim>\<open>io\<close> first runs the
  projectile loop and then tests the win condition once. If at most one player is alive
  after the loop and no winner is recorded (\<^verbatim>\<open>!room.winner\<close>), the winner recorded is
  the name of the sole player alive, or none when no player is alive, and the session is
  torn down: one \<^verbatim>\<open>gameEnded\<close> event with that winner is emitted, both intervals are
  cancelled, the live list is drained and the room leaves \<^verbatim>\<open>activeRooms\<close>. Otherwise
  the tick emits nothing and only stores the session after the loop. In particular the
  winner is none when the last players die in the same tick.
\<close>

theorem win_check:
  assumes "sess (objs g a) = Some s" and "io g"
  shows "\<exists>g1 sv1 s2. updateBullets g a sv = Inr (g1, sv1) \<and> sess (objs g1 a) = Some s2 \<and>
     (let s1 = bulletLoop (length (bullets s)) s in
      if length (alivePlayers s1) \<le> 1 \<and> \<not> winner_set s
      then winner s2 = sole_winner s1
         \<and> (alivePlayers s1 = [] \<longrightarrow> winner s2 = None)
         \<and> (\<forall>k p. alivePlayers s1 = [k] \<and> map_of (playersMap s1) k = Some p
               \<longrightarrow> winner s2 = Some (userName p))
         \<and> emitted sv1 = emitted sv @
               [GameEnded (game_id g) (room_id (objs g a)) (room_id (objs g a)) (sole_winner s1)]
         \<and> simulationInterval (objs g1 a) = None \<and> broadcastInterval (objs g1 a) = None
         \<and> (\<forall>h. simulationInterval (objs g a) = Some h \<or> broadcastInterval (objs g a) = Some h
               \<longrightarrow> map_of (timers sv1) h = None)
         \<and> bullets s2 = []
         \<and> map_of (activeRooms g1) (room_id (objs g a)) = None
      else s2 = s1 \<and> sv1 = sv \<and> g1 = put_room a ((objs g a)\<lparr>sess := Some s1\<rparr>) g)"
proof -
  let ?s1 = "bulletLoop (length (bullets s)) s"
  show ?thesis
  proof (cases "length (alivePlayers ?s1) \<le> 1 \<and> \<not> winner_set s")
    case False
    then show ?thesis
      using assms(1) by (auto simp: updateBullets_def winner_set_bulletLoop put_room_def Let_def)
  next
    case True
    let ?g0 = "put_room a ((objs g a)\<lparr>sess := Some (record_winner ?s1)\<rparr>) g"
    have io0: "io ?g0" using assms(2) by (simp add: put_room_def)
    have upd: "updateBullets g a sv = endAgarIoRoom ?g0 a sv"
      using True assms(1) by (simp add: updateBullets_def winner_set_bulletLoop Let_def)
    have res: "endAgarIoRoom ?g0 a sv = Inr (ended_game ?g0 a, emit (end_event ?g0 a) (cleared (objs ?g0 a) sv))"
      by (rule endAgarIoRoom_Inr [OF io0])
    have em: "emitted (cleared r sv') = emitted sv'" for r sv'
      by (simp add: cleared_def clear_simulation_def clear_broadcast_def clearInterval_def
          split: option.splits)
    have s2: "sess (objs (ended_game ?g0 a) a) = Some (drain_session (record_winner ?s1))"
      by (simp add: ended_game_def ended_room_def put_room_def)
    have w2: "winner (drain_session (record_winner ?s1)) = sole_winner ?s1"
      by (simp add: drain_winner record_winner_sole)
    have ev: "end_event ?g0 a = GameEnded (game_id g) (room_id (objs g a)) (room_id (objs g a)) (sole_winner ?s1)"
      by (simp add: end_event_def put_room_def record_winner_sole)
    have rid: "room_id (objs ?g0 a) = room_id (objs g a)" by (simp add: put_room_def)
    have act: "map_of (activeRooms (ended_game ?g0 a)) (room_id (objs g a)) = None"
      using map_of_delete_same [of "room_id (objs g a)" "activeRooms g"]
      by (simp add: ended_game_def put_room_def)
    have iv: "simulationInterval (objs (ended_game ?g0 a) a) = None \<and>
              broadcastInterval (objs (ended_game ?g0 a) a) = None"
      by (simp add: ended_game_def ended_room_def put_room_def)
    have sole0: "alivePlayers ?s1 = [] \<Longrightarrow> sole_winner ?s1 = None"
      by (simp add: sole_winner_def)
    have sole1: "alivePlayers ?s1 = [k] \<Longrightarrow> map_of (playersMap ?s1) k = Some p \<Longrightarrow>
        sole_winner ?s1 = Some (userName p)" for k p
      by (simp add: sole_winner_def)
    have dr: "bullets (drain_session (record_winner ?s1)) = []"
      by (simp add: drain_session_def)
    have tm: "\<forall>h. simulationInterval (objs g a) = Some h \<or> broadcastInterval (objs g a) = Some h
               \<longrightarrow> map_of (timers (emit (end_event ?g0 a) (cleared (objs ?g0 a) sv))) h = None"
      using timers_cleared [of "objs ?g0 a" _ sv] by (simp add: emit_def put_room_def)
    show ?thesis
      apply (rule exI [of _ "ended_game ?g0 a"])
      apply (rule exI [of _ "emit (end_event ?g0 a) (cleared (objs ?g0 a) sv)"])
      apply (rule exI [of _ "drain_session (record_winner ?s1)"])
      using True upd res s2 w2 ev act iv sole0 sole1 dr tm
      apply (simp add: Let_def emit_def em)
      done
  qed
qed

text \<open>
  The witness: in the example both players fire at each other; in the next tick both
  die, and the session ends with no winner.
\<close>

theorem win_check_witness:
  "alivePlayers ex_session1 = [1, 2] \<and>
   alivePlayers (bulletLoop (length (bullets ex_duel)) ex_duel) = [] \<and>
   (\<exists>g1 sv1 s2. updateBullets ex_duel_game 0 ex_server1 = Inr (g1, sv1) \<and>
       sess (objs g1 0) = Some s2 \<and> winner s2 = None \<and>
       emitted sv1 = [GameEnded 1 7 7 None] \<and>
       map_of (timers sv1) 0 = None \<and> map_of (timers sv1) 1 = None)"
proof -
  have h1: "sess (objs ex_duel_game 0) = Some ex_duel"
    by (simp add: ex_duel_game_def put_room_def)
  have h2: "io ex_duel_game"
    by (simp add: ex_duel_game_def put_room_def ex_game1_eq ex_game0_def)
  have al: "alivePlayers (bulletLoop (length (bullets ex_duel)) ex_duel) = []"
    by (simp add: ex_duel_loop)
  have nw: "\<not> winner_set ex_duel"
    by (simp add: winner_set_def ex_duel_def ex_session1_def)
  have ids: "game_id ex_duel_game = 1" "room_id (objs ex_duel_game 0) = 7"
    by (simp_all add: ex_duel_game_def put_room_def ex_game1_eq ex_game0_def)
  have em: "emitted ex_server1 = []" by (simp add: ex_server1_eq)
  have sw: "sole_winner (bulletLoop (length (bullets ex_duel)) ex_duel) = None"
    by (simp add: al sole_winner_def)
  from win_check [OF h1 h2, of ex_server1] obtain g1 sv1 s2 where
    r: "updateBullets ex_duel_game 0 ex_server1 = Inr (g1, sv1)" "sess (objs g1 0) = Some s2"
    and c: "winner s2 = sole_winner (bulletLoop (length (bullets ex_duel)) ex_duel)"
      "emitted sv1 = emitted ex_server1 @
               [GameEnded (game_id ex_duel_game) (room_id (objs ex_duel_game 0)) (room_id (objs ex_duel_game 0))
                  (sole_winner (bulletLoop (length (bullets ex_duel)) ex_duel))]"
    and tm: "\<forall>h. simulationInterval (objs ex_duel_game 0) = Some h \<or>
                  broadcastInterval (objs ex_duel_game 0) = Some h
               \<longrightarrow> map_of (timers sv1) h = None"
    using al nw by (auto simp: Let_def)
  have iv: "simulationInterval (objs ex_duel_game 0) = Some 0"
      "broadcastInterval (objs ex_duel_game 0) = Some 1"
    by (simp_all add: ex_duel_game_def put_room_def ex_game1_eq)
  show ?thesis
    using r c al sw ids em tm iv by (auto simp: ex_session1_def)
qed

section \<open>Events for a room without a session\<close>

lemma ex_lobby_room:
  "map_of (games ex_world1) 1 = Some ex_game1 \<and> find_room ex_game1 8 = Some 1 \<and>
   sess (objs ex_game1 1) = None"
  by (simp add: ex_world1_def ex_game1_eq ex_game0_def find_room_def blank_room_def)

lemma update_same: "map_of al k = Some v \<Longrightarrow> AList.update k v al = al"
  by (induction al) auto

lemma move_session_unknown:
  "map_of (playersMap s) sock = None \<or> (\<exists>p. map_of (playersMap s) sock = Some p \<and> isDead p)
    \<Longrightarrow> move_session sock d s = s"
  by (auto simp: move_session_def)

lemma put_room_same: "put_room a (objs g a) g = g"
  by (simp add: put_room_def)

lemma room_sess_same: "sess r = Some s \<Longrightarrow> r\<lparr>sess := Some s\<rparr> = r"
  by (cases r) simp

text \<open>
  What holds of claim C4: a move or a shot for an unknown game, an unknown room, or an
  unknown or dead player of a started session changes nothing.
\<close>

lemma move_miss_dropped:
  assumes "map_of (games w) (md_gameId d) = None
     \<or> (\<exists>g. map_of (games w) (md_gameId d) = Some g \<and> (find_room g (md_roomId d) = None
         \<or> (\<exists>a s. find_room g (md_roomId d) = Some a \<and> sess (objs g a) = Some s \<and>
               (map_of (playersMap s) (md_socket d) = None
                 \<or> (\<exists>p. map_of (playersMap s) (md_socket d) = Some p \<and> isDead p)))))"
  shows "handlePlayerMove w d = Inr w"
  using assms
  by (auto simp: handlePlayerMove_def move_session_unknown room_sess_same put_room_same update_same)

lemma shoot_miss_dropped:
  assumes "map_of (games w) (sd_gameId d) = None
     \<or> (\<exists>g. map_of (games w) (sd_gameId d) = Some g \<and> (find_room g (sd_roomId d) = None
         \<or> (\<exists>a s. find_room g (sd_roomId d) = Some a \<and> sess (objs g a) = Some s \<and>
               (map_of (playersMap s) (sd_socket d) = None
                 \<or> (\<exists>p. map_of (playersMap s) (sd_socket d) = Some p \<and> isDead p)))))"
  shows "handleShootBullet w d = Inr w"
  using assms
  by (auto simp: handleShootBullet_def shoot_session_def)

text \<open>
  Claim C4 fails where it says "including when the room id resolves to a lobby room
  whose session has never been started": both handlers fall back to \<^verbatim>\<open>game.rooms\<close> and
  then call \<^verbatim>\<open>room.playersMap.get\<close> on a room without a \<^verbatim>\<open>playersMap\<close>. On room 8 of
  the example a move and a shot both end in a TypeError instead of being dropped.
\<close>

theorem lobby_room_move_shoot_crash:
  "handlePlayerMove ex_world1 ex_move_lobby = Inl TypeError \<and>
   handleShootBullet ex_world1 ex_shoot_lobby = Inl TypeError"
  using ex_lobby_room
  by (simp add: handlePlayerMove_def handleShootBullet_def ex_move_lobby_def ex_shoot_lobby_def)

section \<open>The snapshot of a room\<close>

text \<open>
  What holds of claim C5: for a started room whose alive ids all have an entry in the
  Map, also one without players, \<^verbatim>\<open>broadcastGameState\<close> returns one snapshot; it takes
  the room and returns events, so it changes no state.
\<close>

lemma those_players:
  "set ks \<subseteq> fst ` set pm \<Longrightarrow> \<exists>ps. those (map (\<lambda>k. map_option f (map_of pm k)) ks) = Some ps"
proof (induction ks)
  case Nil
  then show ?case by simp
next
  case (Cons k ks)
  then have "k \<in> fst ` set pm" by simp
  then obtain p where "map_of pm k = Some p"
    by (metis map_of_eq_None_iff not_None_eq)
  with Cons show ?case by auto
qed

lemma broadcast_started:
  assumes "sess r = Some s" and "set (alivePlayers s) \<subseteq> fst ` set (playersMap s)"
  shows "\<exists>sn. broadcastGameState True gameId roomId r = Inr [GameStateUpdate gameId roomId sn]"
proof -
  obtain ps where
    "those (map (\<lambda>k. map_option view_player (map_of (playersMap s) k)) (alivePlayers s)) = Some ps"
    using those_players [OF assms(2)] by blast
  with assms(1) show ?thesis
    by (simp add: broadcastGameState_def)
qed

text \<open>
  Claim C5 fails for "a pre-session lobby room reached via the request-state path": the
  \<^verbatim>\<open>requestGameState\<close> handler falls back to \<^verbatim>\<open>game.rooms\<close> and passes the lobby room
  to \<^verbatim>\<open>broadcastGameState\<close>, where \<^verbatim>\<open>Array.from(room.alivePlayers)\<close> throws. On room 8
  of the example the request ends in a TypeError.
\<close>

theorem lobby_room_request_state_crash:
  "requestGameState ex_world1 1 8 = Inl TypeError"
  using ex_lobby_room
  by (simp add: requestGameState_def getGame_def broadcastGameState_def)

section \<open>Validation of a shot\<close>

lemma shoot_session_None_iff:
  "shoot_session sock t dir s = None \<longleftrightarrow>
     \<not> (shooter_alive s sock \<and> t \<in> set [''charged'', ''fullyCharged''] \<and> numeric_direction dir)"
  apply (cases dir)
  apply (auto simp: shoot_session_def shooter_alive_def bullet_params_def Let_def
         split: option.splits direction.splits jsval.splits prod.splits)
  done

lemma ex_nan_eval:
  "\<exists>w'. handleShootBullet ex_world1 ex_shoot_nan = Inr w' \<and> emitted (server w') =
     [BulletCreated 1 7 \<lparr>b_id = 1, ownerId = 1, b_x = Fin 540, b_y = Fin 540, vx = NaN, vy = Fin 0,
        radius = Fin 5, traveled = Fin 0, rangeLimit = PInf, b_type = ''charged'', speed = Fin 30, ref = 0\<rparr>]"
  by (simp add: handleShootBullet_def ex_shoot_nan_def ex_world1_def ex_game1_eq ex_game0_def
      find_room_def shoot_session_def ex_session1_def ann_def bob_def bullet_params_def velocity_def
      acquire_def js_truthy_def emit_def ex_server1_eq Let_def)


lemma bullets_shoot_session:
  "shoot_session sock t dir s = Some (s1, b) \<Longrightarrow> bullets s1 = bullets s @ [b]"
  by (auto simp: shoot_session_def acquire_def Let_def
         split: option.splits direction.splits jsval.splits prod.splits if_splits)

lemma ex_room7:
  "map_of (games ex_world1) 1 = Some ex_game1 \<and> find_room ex_game1 7 = Some 0 \<and>
   sess (objs ex_game1 0) = Some ex_session1"
  by (simp add: ex_world1_def ex_game1_eq ex_game0_def find_room_def)

text \<open>
  Claim C6 says that a shot is rejected whenever its direction is not a finite 2D
  vector, for example when a component is NaN. The source only tests
  \<^verbatim>\<open>typeof direction.x !== "number"\<close>, and NaN is a number: the shot below, whose
  direction is not finite, creates projectile 1 with velocity NaN and emits
  \<^verbatim>\<open>bulletCreated\<close>.
\<close>

theorem shoot_nan_counterexample:
  "\<not> finite_direction (sd_direction ex_shoot_nan) \<and>
   (\<exists>w'. handleShootBullet ex_world1 ex_shoot_nan = Inr w' \<and> emitted (server w') =
     [BulletCreated 1 7 \<lparr>b_id = 1, ownerId = 1, b_x = Fin 540, b_y = Fin 540, vx = NaN, vy = Fin 0,
        radius = Fin 5, traveled = Fin 0, rangeLimit = PInf, b_type = ''charged'', speed = Fin 30,
        ref = 0\<rparr>])"
  using ex_nan_eval by (simp add: ex_shoot_nan_def)

text \<open>
  Claim C6 as amended. In a started session a shot is rejected with no state change
  (no projectile, no event) whenever the shooter is unknown or dead, the kind is neither
  \<^verbatim>\<open>charged\<close> nor \<^verbatim>\<open>fullyCharged\<close>, or the direction is falsy or has a component that
  is not of type number. Every other shot, also one with a NaN or infinite component, is
  accepted: one record is appended to the live list and one \<^verbatim>\<open>bulletCreated\<close> event is
  emitted.
\<close>

theorem shoot_validation:
  assumes "map_of (games w) (sd_gameId d) = Some g"
    and "find_room g (sd_roomId d) = Some a"
    and "sess (objs g a) = Some s"
  shows "if shot_accepted s d
         then \<exists>s1 b. shoot_session (sd_socket d) (sd_bulletType d) (sd_direction d) s = Some (s1, b)
                \<and> bullets s1 = bullets s @ [b]
                \<and> handleShootBullet w d =
                    Inr (w\<lparr>games := AList.update (sd_gameId d)
                              (put_room a ((objs g a)\<lparr>sess := Some s1\<rparr>) g) (games w),
                           server := emit (BulletCreated (game_id g) (room_id (objs g a)) b)
                                       (server w)\<rparr>)
         else handleShootBullet w d = Inr w"
proof (cases "shot_accepted s d")
  case True
  then have "shoot_session (sd_socket d) (sd_bulletType d) (sd_direction d) s \<noteq> None"
    unfolding shoot_session_None_iff shot_accepted_def by simp
  then obtain s1 b where
    sh: "shoot_session (sd_socket d) (sd_bulletType d) (sd_direction d) s = Some (s1, b)"
    by auto
  show ?thesis
    using True assms sh bullets_shoot_session [OF sh]
    by (simp add: handleShootBullet_def)
next
  case False
  then have "shoot_session (sd_socket d) (sd_bulletType d) (sd_direction d) s = None"
    unfolding shoot_session_None_iff shot_accepted_def by simp
  then show ?thesis
    using False assms by (simp add: handleShootBullet_def)
qed

theorem shoot_validation_witness:
  "handleShootBullet ex_world1 (ex_shoot_nan\<lparr>sd_bulletType := ''laser''\<rparr>) = Inr ex_world1 \<and>
   handleShootBullet ex_world1 (ex_shoot_nan\<lparr>sd_direction := DObj (JNum (Fin 1)) JOther\<rparr>) = Inr ex_world1 \<and>
   handleShootBullet ex_world1 (ex_shoot_nan\<lparr>sd_socket := 3\<rparr>) = Inr ex_world1"
proof -
  have a: "\<not> shot_accepted ex_session1 (ex_shoot_nan\<lparr>sd_bulletType := ''laser''\<rparr>)"
    by (simp add: shot_accepted_def ex_shoot_nan_def)
  have b: "\<not> shot_accepted ex_session1 (ex_shoot_nan\<lparr>sd_direction := DObj (JNum (Fin 1)) JOther\<rparr>)"
    by (simp add: shot_accepted_def ex_shoot_nan_def)
  have c: "\<not> shot_accepted ex_session1 (ex_shoot_nan\<lparr>sd_socket := 3\<rparr>)"
    by (simp add: shot_accepted_def ex_shoot_nan_def shooter_alive_def ex_session1_def)
  have g: "sd_gameId (ex_shoot_nan\<lparr>sd_bulletType := ''laser''\<rparr>) = 1"
      "sd_roomId (ex_shoot_nan\<lparr>sd_bulletType := ''laser''\<rparr>) = 7"
      "sd_gameId (ex_shoot_nan\<lparr>sd_direction := DObj (JNum (Fin 1)) JOther\<rparr>) = 1"
      "sd_roomId (ex_shoot_nan\<lparr>sd_direction := DObj (JNum (Fin 1)) JOther\<rparr>) = 7"
      "sd_gameId (ex_shoot_nan\<lparr>sd_socket := 3\<rparr>) = 1"
      "sd_roomId (ex_shoot_nan\<lparr>sd_socket := 3\<rparr>) = 7"
    by (simp_all add: ex_shoot_nan_def)
  show ?thesis
    using shoot_validation [of ex_world1 "ex_shoot_nan\<lparr>sd_bulletType := ''laser''\<rparr>" ex_game1 0 ex_session1]
      shoot_validation [of ex_world1 "ex_shoot_nan\<lparr>sd_direction := DObj (JNum (Fin 1)) JOther\<rparr>" ex_game1 0 ex_session1]
      shoot_validation [of ex_world1 "ex_shoot_nan\<lparr>sd_socket := 3\<rparr>" ex_game1 0 ex_session1]
      a b c g ex_room7
    by simp
qed

section \<open>The order in which a tick visits the projectiles\<close>

lemma resolve_bullets_upd:
  "resolve b (s\<lparr>bullets := x\<rparr>) = (fst (resolve b s), (snd (resolve b s))\<lparr>bullets := x\<rparr>)"
  by (simp add: resolve_def Let_def split: option.splits prod.splits)

lemma visit_bullets_upd:
  "visit bs (s\<lparr>bullets := x\<rparr>) = (fst (visit bs s), (snd (visit bs s))\<lparr>bullets := x\<rparr>)"
proof (induction bs arbitrary: s)
  case Nil
  show ?case by simp
next
  case (Cons b bs)
  show ?case
    by (simp add: resolve_bullets_upd Cons.IH case_prod_unfold Let_def split: option.splits)
qed

lemma bulletStep_resolve:
  assumes "bullets s = pre @ b # post" and "i = length pre"
  shows "bulletStep i s =
     (snd (resolve b s))\<lparr>bullets := pre @ (case fst (resolve b s) of None \<Rightarrow> post | Some b1 \<Rightarrow> b1 # post)\<rparr>"
  using assms
  by (simp add: bulletStep_def resolve_def Let_def split: option.splits prod.splits)

lemma bulletLoop_visit:
  "bullets s = pre @ post \<Longrightarrow>
   bulletLoop (length pre) s = (snd (visit (rev pre) s))\<lparr>bullets := rev (fst (visit (rev pre) s)) @ post\<rparr>"
proof (induction pre arbitrary: s post rule: rev_induct)
  case Nil
  then show ?case by simp
next
  case (snoc b pre)
  let ?k = "fst (resolve b s)"
  let ?s1 = "snd (resolve b s)"
  let ?post1 = "case ?k of None \<Rightarrow> post | Some b1 \<Rightarrow> b1 # post"
  have bs: "bullets s = pre @ b # post" using snoc.prems by simp
  have step: "bulletStep (length pre) s = ?s1\<lparr>bullets := pre @ ?post1\<rparr>"
    by (rule bulletStep_resolve [OF bs refl])
  have "bulletLoop (length (pre @ [b])) s = bulletLoop (length pre) (?s1\<lparr>bullets := pre @ ?post1\<rparr>)"
    by (simp add: step)
  also have "\<dots> = (snd (visit (rev pre) (?s1\<lparr>bullets := pre @ ?post1\<rparr>)))
        \<lparr>bullets := rev (fst (visit (rev pre) (?s1\<lparr>bullets := pre @ ?post1\<rparr>))) @ ?post1\<rparr>"
    by (rule snoc.IH) simp
  also have "\<dots> = (snd (visit (rev pre) ?s1))\<lparr>bullets := rev (fst (visit (rev pre) ?s1)) @ ?post1\<rparr>"
    by (simp add: visit_bullets_upd)
  also have "\<dots> = (snd (visit (rev (pre @ [b])) s))
        \<lparr>bullets := rev (fst (visit (rev (pre @ [b])) s)) @ post\<rparr>"
    by (cases ?k) (simp_all add: case_prod_unfold Let_def)
  finally show ?case .
qed

lemma bulletLoop_in_range:
  assumes "Suc i \<le> length (bullets s)"
  shows "i \<le> length (bullets (bulletStep i s))"
proof -
  have "bullets s = take i (bullets s) @ (bullets s ! i) # drop (Suc i) (bullets s)"
    using assms by (simp add: id_take_nth_drop)
  moreover have "i = length (take i (bullets s))" using assms by simp
  ultimately have "bulletStep i s =
      (snd (resolve (bullets s ! i) s))\<lparr>bullets := take i (bullets s) @
         (case fst (resolve (bullets s ! i) s) of None \<Rightarrow> drop (Suc i) (bullets s)
          | Some b1 \<Rightarrow> b1 # drop (Suc i) (bullets s))\<rparr>"
    by (rule bulletStep_resolve)
  then show ?thesis using assms by simp
qed

lemma ex_two_shots_reached:
  "\<exists>s1. shoot_session 1 ''charged'' (DObj (JNum (Fin 1)) (JNum (Fin 0))) ex_session1 = Some (s1, ex_shot 1 0)
      \<and> shoot_session 1 ''charged'' (DObj (JNum (Fin 1)) (JNum (Fin 0))) s1 = Some (ex_two_shots, ex_shot 2 1)"
  by (simp add: shoot_session_def ex_session1_def ann_def bob_def bullet_params_def velocity_def
        acquire_def js_truthy_def Let_def ex_shot_def ex_two_shots_def)

lemma ex_two_shots_loop:
  "bulletLoop (length (bullets ex_two_shots)) ex_two_shots =
     ex_two_shots\<lparr>playersMap := [(1, ann), (2, bob\<lparr>isDead := True\<rparr>)], alivePlayers := [1],
        bullets := [advance (ex_shot 1 0)], bulletPool := [advance (ex_shot 2 1)]\<rparr>"
  by (simp add: ex_two_shots_def ex_session1_def bulletStep_def advance_def retired_def
        ex_shot_def WORLD_WIDTH_def WORLD_HEIGHT_def hits_def js_sub_def ann_def bob_def Let_def
        numeral_2_eq_2)

lemma ex_two_shots_in_order:
  "tick_in_order ex_two_shots =
     ex_two_shots\<lparr>playersMap := [(1, ann), (2, bob\<lparr>isDead := True\<rparr>)], alivePlayers := [1],
        bullets := [advance (ex_shot 2 1)], bulletPool := [advance (ex_shot 1 0)]\<rparr>"
  by (simp add: tick_in_order_def resolve_def ex_two_shots_def ex_session1_def advance_def retired_def
        ex_shot_def WORLD_WIDTH_def WORLD_HEIGHT_def hits_def js_sub_def ann_def bob_def Let_def)

text \<open>
  Claim C7 says that a tick visits the live projectiles first inserted first. The loop
  of \<^verbatim>\<open>updateBullets\<close> counts down from the last index. In the example the first
  player has fired projectiles 1 and 2 at the second player: the tick lets projectile 2
  kill that player and leaves projectile 1 live, where a tick in insertion order leaves
  projectile 2 live.
\<close>

theorem tick_order_counterexample:
  "map b_id (bullets (bulletLoop (length (bullets ex_two_shots)) ex_two_shots)) = [1] \<and>
   map b_id (bullets (tick_in_order ex_two_shots)) = [2] \<and>
   bulletLoop (length (bullets ex_two_shots)) ex_two_shots \<noteq> tick_in_order ex_two_shots"
proof -
  have a: "map b_id (bullets (bulletLoop (length (bullets ex_two_shots)) ex_two_shots)) = [1]"
    by (simp add: ex_two_shots_loop advance_def ex_shot_def)
  have b: "map b_id (bullets (tick_in_order ex_two_shots)) = [2]"
    by (simp add: ex_two_shots_in_order advance_def ex_shot_def)
  from a b show ?thesis by auto
qed


text \<open>
  Claim C7 as amended. The tick visits the live projectiles in reverse insertion order,
  last inserted first; the projectiles that stay live keep their insertion order in the
  live list, and the retired ones enter the pool in the order visited.
\<close>

theorem tick_visits_last_inserted_first:
  "bulletLoop (length (bullets s)) s = tick_reversed s"
  using bulletLoop_visit [of s "bullets s" "[]"]
  by (simp add: tick_reversed_def case_prod_unfold Let_def)

section \<open>Projectile ids\<close>


lemma resolve_cases:
  "(\<exists>b1. resolve b s = (Some b1, s) \<and> b1 = advance b) \<or>
   (\<exists>pm al. resolve b s = (None, s\<lparr>playersMap := pm, alivePlayers := al,
        bulletPool := bulletPool s @ [advance b]\<rparr>))"
proof (cases "retired (advance b)")
  case True
  have "s\<lparr>bulletPool := bulletPool s @ [advance b]\<rparr> =
        s\<lparr>playersMap := playersMap s, alivePlayers := alivePlayers s,
          bulletPool := bulletPool s @ [advance b]\<rparr>"
    by simp
  moreover have "resolve b s = (None, s\<lparr>bulletPool := bulletPool s @ [advance b]\<rparr>)"
    using True by (simp add: resolve_def)
  ultimately have "resolve b s = (None, s\<lparr>playersMap := playersMap s, alivePlayers := alivePlayers s,
          bulletPool := bulletPool s @ [advance b]\<rparr>)"
    by (simp only:)
  then show ?thesis by blast
next
  case False
  show ?thesis
  proof (cases "collide (advance b) (playersMap s)")
    case None
    with False show ?thesis by (simp add: resolve_def)
  next
    case (Some r)
    obtain pm p where "r = (pm, p)" by (cases r)
    with False Some have "resolve b s = (None, s\<lparr>playersMap := pm,
        alivePlayers := removeAll (socketId p) (alivePlayers s),
        bulletPool := bulletPool s @ [advance b]\<rparr>)"
      by (simp add: resolve_def)
    then show ?thesis by blast
  qed
qed

lemma resolve_counter:
  "bulletIdCounter (snd (resolve b s)) = bulletIdCounter s \<and> allocated (snd (resolve b s)) = allocated s"
  using resolve_cases [of b s] by auto

lemma visit_counter:
  "bulletIdCounter (snd (visit bs s)) = bulletIdCounter s \<and> allocated (snd (visit bs s)) = allocated s"
  by (induction bs arbitrary: s) (simp_all add: case_prod_unfold Let_def resolve_counter)

lemma visit_records:
  "mset (fst (visit bs s)) + mset (bulletPool (snd (visit bs s))) =
   mset (map advance bs) + mset (bulletPool s)"
proof (induction bs arbitrary: s)
  case Nil
  show ?case by simp
next
  case (Cons b bs)
  from resolve_cases [of b s] show ?case
  proof (elim disjE exE conjE)
    fix b1 assume "resolve b s = (Some b1, s)" "b1 = advance b"
    then show ?thesis using Cons.IH [of s] by (simp add: case_prod_unfold Let_def)
  next
    fix pm al
    assume r: "resolve b s = (None, s\<lparr>playersMap := pm, alivePlayers := al,
        bulletPool := bulletPool s @ [advance b]\<rparr>)"
    show ?thesis
      using Cons.IH [of "s\<lparr>playersMap := pm, alivePlayers := al,
        bulletPool := bulletPool s @ [advance b]\<rparr>"]
      by (simp add: r case_prod_unfold Let_def)
  qed
qed

lemma subseq_rev: "subseq xs ys \<Longrightarrow> subseq (rev xs) (rev ys)"
  by (induction rule: list_emb.induct) (auto intro: subseq_rev_drop_many list_emb_append_mono)

lemma subseq_set: "subseq xs ys \<Longrightarrow> set xs \<subseteq> set ys"
  by (induction rule: list_emb.induct) auto

lemma subseq_distinct_imp: "subseq xs ys \<Longrightarrow> distinct ys \<Longrightarrow> distinct xs"
  by (induction rule: list_emb.induct) (auto dest: subseq_set)

lemma visit_live: "subseq (fst (visit bs s)) (map advance bs)"
proof (induction bs arbitrary: s)
  case Nil
  show ?case by simp
next
  case (Cons b bs)
  from resolve_cases [of b s] show ?case
  proof (elim disjE exE conjE)
    fix b1 assume "resolve b s = (Some b1, s)" "b1 = advance b"
    then show ?thesis using Cons.IH [of s] by (simp add: case_prod_unfold Let_def)
  next
    fix pm al
    assume r: "resolve b s = (None, s\<lparr>playersMap := pm, alivePlayers := al,
        bulletPool := bulletPool s @ [advance b]\<rparr>)"
    show ?thesis
      using Cons.IH [of "s\<lparr>playersMap := pm, alivePlayers := al,
        bulletPool := bulletPool s @ [advance b]\<rparr>"]
      by (simp add: r case_prod_unfold Let_def list_emb_Cons)
  qed
qed

lemma bulletLoop_tick:
  "bulletLoop (length (bullets s)) s =
     (snd (visit (rev (bullets s)) s))\<lparr>bullets := rev (fst (visit (rev (bullets s)) s))\<rparr>"
  using bulletLoop_visit [of s "bullets s" "[]"] by simp

lemma bulletLoop_live: "subseq (bullets (bulletLoop (length (bullets s)) s)) (map advance (bullets s))"
  using subseq_rev [OF visit_live [of "rev (bullets s)" s]]
  by (simp add: bulletLoop_tick rev_map)

lemma bulletLoop_records:
  "mset (bullets (bulletLoop (length (bullets s)) s) @ bulletPool (bulletLoop (length (bullets s)) s)) =
   mset (map advance (bullets s) @ bulletPool s)"
  using visit_records [of "rev (bullets s)" s]
  by (simp add: bulletLoop_tick rev_map [symmetric])

lemma bulletLoop_counter:
  "bulletIdCounter (bulletLoop (length (bullets s)) s) = bulletIdCounter s \<and>
   allocated (bulletLoop (length (bullets s)) s) = allocated s"
  by (simp add: bulletLoop_tick visit_counter)



lemma b_id_advance: "b_id (advance b) = b_id b" and ref_advance: "ref (advance b) = ref b"
  by (simp_all add: advance_def)

lemma shoot_session_acquire:
  assumes "shoot_session sock t dir s = Some (s1, b)"
  shows "\<exists>p v rad rl sp s0. acquire s p v rad rl t sp = (b, s0) \<and> s1 = s0\<lparr>bullets := bullets s0 @ [b]\<rparr>"
proof -
  from assms obtain p where p: "map_of (playersMap s) sock = Some p" "\<not> isDead p"
    by (auto simp: shoot_session_def split: option.splits if_splits)
  from assms p obtain dx dy where d: "dir = DObj (JNum dx) (JNum dy)"
    by (cases dir rule: numeric_direction.cases) (auto simp: shoot_session_def split: jsval.splits)
  from assms p d obtain sp rad rl where bp: "bullet_params t = Some (sp, rad, rl)"
    by (cases "bullet_params t") (auto simp: shoot_session_def split: if_splits)
  obtain b0 s0 where a: "acquire s p (velocity dx dy sp) rad rl t sp = (b0, s0)"
    by (cases "acquire s p (velocity dx dy sp) rad rl t sp")
  from assms p d bp a have "b = b0" "s1 = s0\<lparr>bullets := bullets s0 @ [b0]\<rparr>"
    by (auto simp: shoot_session_def split: if_splits)
  with a show ?thesis by blast
qed

lemma acquire_result:
  assumes "acquire s p v rad rl t sp = (b, s0)"
  shows "b_id b = bulletIdCounter s \<and> bulletIdCounter s0 = Suc (bulletIdCounter s) \<and>
         bullets s0 = bullets s \<and>
         (if bulletPool s \<noteq> []
          then ref b = ref (last (bulletPool s)) \<and> allocated s0 = allocated s \<and>
               bulletPool s0 = butlast (bulletPool s)
          else ref b = allocated s \<and> allocated s0 = Suc (allocated s) \<and> bulletPool s0 = [])"
  using assms by (cases "bulletPool s = []") (auto simp: acquire_def Let_def)

lemma shoot_session_Some:
  assumes "shoot_session sock t dir s = Some (s1, b)"
  shows "b_id b = bulletIdCounter s \<and> bulletIdCounter s1 = Suc (bulletIdCounter s) \<and>
         bullets s1 = bullets s @ [b] \<and>
         (if bulletPool s \<noteq> []
          then ref b = ref (last (bulletPool s)) \<and> allocated s1 = allocated s \<and>
               bulletPool s1 = butlast (bulletPool s)
          else ref b = allocated s \<and> allocated s1 = Suc (allocated s) \<and> bulletPool s1 = [])"
proof -
  from shoot_session_acquire [OF assms] obtain p v rad rl sp s0 where
    a: "acquire s p v rad rl t sp = (b, s0)" and s1: "s1 = s0\<lparr>bullets := bullets s0 @ [b]\<rparr>"
    by blast
  from acquire_result [OF a] s1 show ?thesis by (simp split: if_splits)
qed

lemma move_session_frame:
  "bullets (move_session sock d s) = bullets s"
  "bulletPool (move_session sock d s) = bulletPool s"
  "bulletIdCounter (move_session sock d s) = bulletIdCounter s"
  "allocated (move_session sock d s) = allocated s"
  by (simp_all add: move_session_def split: option.splits)

lemma ex_run_one_shot: "session_run ex_one_shot [1]"
proof -
  have "session_run ex_session1 []"
    using started [of ex_rnd ex_players] by (simp add: ex_start_session)
  moreover have "shoot_session 1 ''charged'' (DObj (JNum (Fin 1)) (JNum (Fin 0))) ex_session1 =
      Some (ex_one_shot, ex_shot 1 0)"
    by (simp add: shoot_session_def ex_session1_def ann_def bob_def bullet_params_def velocity_def
        acquire_def js_truthy_def Let_def ex_shot_def ex_one_shot_def)
  ultimately have "session_run ex_one_shot ([] @ [b_id (ex_shot 1 0)])"
    by (rule shot)
  then show ?thesis by (simp add: ex_shot_def)
qed

lemma ex_one_shot_loop: "bulletLoop (length (bullets ex_one_shot)) ex_one_shot = ex_after_tick"
  by (simp add: ex_after_tick_def ex_one_shot_def ex_session1_def bulletStep_def advance_def
        retired_def ex_shot_def WORLD_WIDTH_def WORLD_HEIGHT_def hits_def js_sub_def ann_def
        bob_def Let_def)

lemma ex_run_after_tick: "session_run ex_after_tick [1]"
  using ticked [OF ex_run_one_shot] by (simp only: ex_one_shot_loop)

lemma ex_second_shot:
  "shoot_session 1 ''charged'' (DObj (JNum (Fin 1)) (JNum (Fin 0))) ex_after_tick =
     Some (ex_recycled, ex_shot 2 0)"
  by (simp add: shoot_session_def ex_after_tick_def ex_one_shot_def ex_session1_def ann_def bob_def
        bullet_params_def velocity_def acquire_def js_truthy_def Let_def ex_shot_def
        ex_recycled_def advance_def)

lemma ex_run_recycled: "session_run ex_recycled [1, 2]"
proof -
  have "session_run ex_recycled ([1] @ [b_id (ex_shot 2 0)])"
    using ex_run_after_tick ex_second_shot by (rule shot)
  then show ?thesis by (simp add: ex_shot_def)
qed

lemma session_run_ids_ok: "session_run s ids \<Longrightarrow> ids_ok s ids"
proof (induction rule: session_run.induct)
  case (started rnd ps)
  show ?case by (simp add: ids_ok_def start_session_def)
next
  case (moved s ids sock d)
  then show ?case by (auto simp: ids_ok_def move_session_frame)
next
  case (shot s ids sock t dir s1 b)
  from shoot_session_Some [OF shot.hyps(2)] shot.IH show ?case
    by (auto simp: ids_ok_def)
next
  case (ticked s ids)
  let ?s1 = "bulletLoop (length (bullets s)) s"
  have sub: "subseq (map b_id (bullets ?s1)) (map b_id (bullets s))"
    using subseq_map [OF bulletLoop_live [of s], of b_id] by (simp add: comp_def b_id_advance)
  have inc: "set (map b_id (bullets ?s1)) \<subseteq> set ids"
    using subseq_set [OF sub] ticked.IH unfolding ids_ok_def by blast
  have dis: "distinct (map b_id (bullets ?s1))"
    using subseq_distinct_imp [OF sub] ticked.IH unfolding ids_ok_def by blast
  from ticked.IH inc dis show ?case
    by (simp add: ids_ok_def bulletLoop_counter)
next
  case (won s ids)
  then show ?case by (auto simp: ids_ok_def record_winner_def)
next
  case (ended s ids)
  then show ?case by (auto simp: ids_ok_def drain_session_def)
qed

text \<open>
  Claim C8. Along every run of a session the ids of the projectiles created are strictly
  increasing, the live projectiles carry distinct ids, all of them among the ids
  created, and every shot that is accepted appends a record whose id is greater than
  every id created before, also when the record comes from the pool.
\<close>

theorem projectile_ids_increase:
  assumes "session_run s ids"
  shows "sorted_wrt (<) ids \<and> distinct (map b_id (bullets s)) \<and>
         set (map b_id (bullets s)) \<subseteq> set ids \<and>
         (\<forall>sock t dir s1 b. shoot_session sock t dir s = Some (s1, b) \<longrightarrow>
            (\<forall>i \<in> set ids. i < b_id b) \<and> bullets s1 = bullets s @ [b] \<and>
            (bulletPool s \<noteq> [] \<longrightarrow> ref b = ref (last (bulletPool s))))"
proof -
  have ok: "ids_ok s ids" by (rule session_run_ids_ok [OF assms])
  then have "sorted_wrt (<) ids" by (simp add: ids_ok_def)
  moreover have "(\<forall>i \<in> set ids. i < b_id b) \<and> bullets s1 = bullets s @ [b] \<and>
            (bulletPool s \<noteq> [] \<longrightarrow> ref b = ref (last (bulletPool s)))"
    if "shoot_session sock t dir s = Some (s1, b)" for sock t dir s1 b
    using shoot_session_Some [OF that] ok by (auto simp: ids_ok_def)
  ultimately show ?thesis using ok by (auto simp: ids_ok_def)
qed


text \<open>
  The witness: in the example the second shot takes the record of the first one from
  the pool and gives it the id 2.
\<close>

theorem projectile_ids_increase_witness:
  "session_run ex_after_tick [1] \<and>
   shoot_session 1 ''charged'' (DObj (JNum (Fin 1)) (JNum (Fin 0))) ex_after_tick =
     Some (ex_recycled, ex_shot 2 0) \<and>
   1 < b_id (ex_shot 2 0) \<and>
   bulletPool ex_after_tick \<noteq> [] \<and>
   ref (ex_shot 2 0) = ref (last (bulletPool ex_after_tick)) \<and>
   bullets ex_recycled = bullets ex_after_tick @ [ex_shot 2 0]"
proof -
  have ne: "bulletPool ex_after_tick \<noteq> []" by (simp add: ex_after_tick_def)
  from projectile_ids_increase [OF ex_run_after_tick] ex_second_shot
  have "(\<forall>i \<in> set [1]. i < b_id (ex_shot 2 0)) \<and>
        bullets ex_recycled = bullets ex_after_tick @ [ex_shot 2 0] \<and>
        (bulletPool ex_after_tick \<noteq> [] \<longrightarrow> ref (ex_shot 2 0) = ref (last (bulletPool ex_after_tick)))"
    by blast
  with ne ex_run_after_tick ex_second_shot show ?thesis by simp
qed

section \<open>The projectile pool\<close>

lemma session_run_pool_ok: "session_run s ids \<Longrightarrow> pool_ok s ids"
proof (induction rule: session_run.induct)
  case (started rnd ps)
  show ?case by (simp add: pool_ok_def start_session_def)
next
  case (moved s ids sock d)
  then show ?case by (simp add: pool_ok_def move_session_frame)
next
  case (shot s ids sock t dir s1 b)
  note sh = shoot_session_Some [OF shot.hyps(2)]
  show ?case
  proof (cases "bulletPool s = []")
    case True
    with sh shot.IH show ?thesis
      by (simp add: pool_ok_def)
  next
    case False
    then obtain ys y where sp: "bulletPool s = ys @ [y]"
      by (metis append_butlast_last_id)
    have m: "mset (map ref (bullets s1 @ bulletPool s1)) = mset (map ref (bullets s @ bulletPool s))"
      using sh by (simp add: sp)
    from shot.IH m sh False show ?thesis
      by (simp add: pool_ok_def)
  qed
next
  case (ticked s ids)
  let ?s1 = "bulletLoop (length (bullets s)) s"
  have e: "mset (bullets ?s1 @ bulletPool ?s1) = mset (map advance (bullets s) @ bulletPool s)"
    by (rule bulletLoop_records)
  have "mset (map ref (bullets ?s1 @ bulletPool ?s1)) = image_mset ref (mset (bullets ?s1 @ bulletPool ?s1))"
    by simp
  also have "\<dots> = image_mset ref (mset (map advance (bullets s) @ bulletPool s))"
    by (simp only: e)
  also have "\<dots> = mset (map ref (bullets s @ bulletPool s))"
    by (simp add: multiset.map_comp comp_def ref_advance)
  finally have m: "mset (map ref (bullets ?s1 @ bulletPool ?s1)) = mset (map ref (bullets s @ bulletPool s))" .
  from ticked.IH m show ?case
    by (simp add: pool_ok_def bulletLoop_counter)
next
  case (won s ids)
  then show ?case by (simp add: pool_ok_def record_winner_def)
next
  case (ended s ids)
  then show ?case by (simp add: pool_ok_def drain_session_def add.commute)
qed

text \<open>
  Claim C9. Along every run of a session each projectile record allocated is in the live
  list or in the pool, and only once; after the teardown has drained the live list the
  pool holds as many records as were allocated, which is at most the number of shots;
  and a shot takes the last record of the pool whenever the pool is not empty, allocating
  a new one only when it is.
\<close>

theorem records_conserved:
  assumes "session_run s ids"
  shows "distinct (map ref (bullets s @ bulletPool s)) \<and>
         set (map ref (bullets s @ bulletPool s)) = {..<allocated s} \<and>
         bullets (drain_session s) = [] \<and>
         length (bulletPool (drain_session s)) = allocated s \<and>
         allocated s \<le> length ids \<and>
         (\<forall>sock t dir s1 b. shoot_session sock t dir s = Some (s1, b) \<longrightarrow>
            (if bulletPool s \<noteq> []
             then ref b = ref (last (bulletPool s)) \<and> allocated s1 = allocated s
             else ref b = allocated s \<and> allocated s1 = Suc (allocated s)))"
proof -
  have ok: "pool_ok s ids" by (rule session_run_pool_ok [OF assms])
  then have m: "mset (map ref (bullets s @ bulletPool s)) = mset [0..<allocated s]"
    by (simp add: pool_ok_def)
  have d: "distinct (map ref (bullets s @ bulletPool s))"
    using mset_eq_imp_distinct_iff [OF m] by simp
  have st: "set (map ref (bullets s @ bulletPool s)) = {..<allocated s}"
    using mset_eq_setD [OF m] by (simp add: lessThan_atLeast0)
  have "length (map ref (bullets s @ bulletPool s)) = length [0..<allocated s]"
    by (rule mset_eq_length [OF m])
  then have len: "length (bulletPool (drain_session s)) = allocated s"
    by (simp add: drain_session_def)
  have "if bulletPool s \<noteq> []
             then ref b = ref (last (bulletPool s)) \<and> allocated s1 = allocated s
             else ref b = allocated s \<and> allocated s1 = Suc (allocated s)"
    if "shoot_session sock t dir s = Some (s1, b)" for sock t dir s1 b
    using shoot_session_Some [OF that] by (simp split: if_splits)
  then have sh: "\<forall>sock t dir s1 b. shoot_session sock t dir s = Some (s1, b) \<longrightarrow>
            (if bulletPool s \<noteq> []
             then ref b = ref (last (bulletPool s)) \<and> allocated s1 = allocated s
             else ref b = allocated s \<and> allocated s1 = Suc (allocated s))"
    by blast
  have al: "allocated s \<le> length ids" using ok by (simp add: pool_ok_def)
  have dr: "bullets (drain_session s) = []" by (simp add: drain_session_def)
  from d st dr len al sh show ?thesis by blast
qed


text \<open>
  The witness: after two shots of the example, the second of which reuses the record of
  the first, one record has been allocated, and draining leaves a pool of size one.
\<close>

theorem records_conserved_witness:
  "session_run ex_recycled [1, 2] \<and> allocated ex_recycled = 1 \<and>
   length (bulletPool (drain_session ex_recycled)) = 1 \<and>
   distinct (map ref (bullets ex_recycled @ bulletPool ex_recycled))"
proof -
  have al: "allocated ex_recycled = 1" by (simp add: ex_recycled_def)
  from records_conserved [OF ex_run_recycled] al ex_run_recycled show ?thesis by simp
qed

section \<open>A disconnect during a session\<close>

lemma same_session_refl: "same_session r r"
  by (simp add: same_session_def)

lemma same_session_trans: "same_session r r1 \<Longrightarrow> same_session r1 r2 \<Longrightarrow> same_session r r2"
  by (cases r; cases r1; cases r2) (simp add: same_session_def)

lemma same_session_players: "same_session r (r\<lparr>players := ps\<rparr>)"
  by (simp add: same_session_def)

lemma game_frame_iff:
  "game_frame g g1 \<longleftrightarrow> (nextObj g \<le> nextObj g1 \<and> (\<forall>a < nextObj g. same_session (objs g a) (objs g1 a)))"
  by (auto simp: game_frame_def list_all_iff)

lemma game_frame_refl: "game_frame g g"
  by (simp add: game_frame_iff same_session_refl)

lemma game_frame_trans: "game_frame g g1 \<Longrightarrow> game_frame g1 g2 \<Longrightarrow> game_frame g g2"
  unfolding game_frame_iff
  by (meson same_session_trans le_trans less_le_trans)

lemma quiet_refl: "quiet sv sv"
  by (simp add: quiet_def)

lemma quiet_trans: "quiet sv sv1 \<Longrightarrow> quiet sv1 sv2 \<Longrightarrow> quiet sv sv2"
  by (simp add: quiet_def)

lemma quiet_broadcastRooms: "quiet sv (broadcastRooms gameId sv)"
  by (simp add: quiet_def broadcastRooms_def emit_def)

lemma game_frame_put_players:
  "game_frame g (put_room a ((objs g a)\<lparr>players := ps\<rparr>) g)"
  by (simp add: game_frame_iff put_room_def same_session_refl same_session_players)

lemma game_frame_rooms: "game_frame g (g\<lparr>rooms := rs\<rparr>)"
  by (simp add: game_frame_iff same_session_refl)

lemma game_frame_activeRooms: "game_frame g (g\<lparr>activeRooms := rs\<rparr>)"
  by (simp add: game_frame_iff same_session_refl)

lemma game_frame_ensure: "game_frame g (ensureSingleEmptyRoom g)"
  by (simp add: game_frame_iff ensureSingleEmptyRoom_def same_session_refl)

lemma if_both: "P x \<Longrightarrow> P y \<Longrightarrow> P (if c then x else y)"
  by simp

lemma disconnect_lobby_server:
  "snd (disconnect_lobby sock gameId (k, a) (g, sv)) =
     (if list_ex (\<lambda>p. lp_socketId p = sock) (players (objs g a)) then broadcastRooms gameId sv else sv)"
  by (simp add: disconnect_lobby_def Let_def)

lemma disconnect_lobby_frame:
  "game_frame g (fst (disconnect_lobby sock gameId e (g, sv))) \<and>
   quiet sv (snd (disconnect_lobby sock gameId e (g, sv)))"
proof -
  obtain k a where e: "e = (k, a)" by (cases e)
  let ?g1 = "put_room a ((objs g a)\<lparr>players := remove_first (\<lambda>p. lp_socketId p = sock) (players (objs g a))\<rparr>) g"
  have f1: "game_frame g ?g1" by (rule game_frame_put_players)
  have f2: "game_frame g (ensureSingleEmptyRoom (?g1\<lparr>rooms := AList.delete k (rooms ?g1)\<rparr>))"
    by (rule game_frame_trans [OF game_frame_trans [OF f1 game_frame_rooms] game_frame_ensure])
  have q: "quiet sv (snd (disconnect_lobby sock gameId (k, a) (g, sv)))"
    unfolding disconnect_lobby_server
    by (rule if_both [where P="quiet sv", OF quiet_broadcastRooms quiet_refl])
  have "game_frame g (fst (disconnect_lobby sock gameId (k, a) (g, sv)))"
  proof (cases "list_ex (\<lambda>p. lp_socketId p = sock) (players (objs g a))")
    case True
    show ?thesis
      unfolding disconnect_lobby_found [OF True]
      by (rule if_both [where P="game_frame g", OF f2 f1])
  next
    case False
    then show ?thesis by (simp add: disconnect_lobby_def game_frame_refl)
  qed
  with q show ?thesis by (simp only: e)
qed

lemma disconnect_active_found:
  assumes "list_ex (\<lambda>p. lp_socketId p = sock) (players (objs g a))"
  shows "fst (disconnect_active sock gameId (k, a) (g, sv)) =
     (if players ((objs g a)\<lparr>players := remove_first (\<lambda>p. lp_socketId p = sock) (players (objs g a))\<rparr>) = []
      then (put_room a ((objs g a)\<lparr>players := remove_first (\<lambda>p. lp_socketId p = sock) (players (objs g a))\<rparr>) g)
             \<lparr>activeRooms := AList.delete k (activeRooms (put_room a ((objs g a)\<lparr>players := remove_first (\<lambda>p. lp_socketId p = sock) (players (objs g a))\<rparr>) g))\<rparr>
      else put_room a ((objs g a)\<lparr>players := remove_first (\<lambda>p. lp_socketId p = sock) (players (objs g a))\<rparr>) g)"
  using assms by (simp add: disconnect_active_def Let_def)

lemma disconnect_active_server:
  "snd (disconnect_active sock gameId (k, a) (g, sv)) =
     (if list_ex (\<lambda>p. lp_socketId p = sock) (players (objs g a)) \<and>
         remove_first (\<lambda>p. lp_socketId p = sock) (players (objs g a)) = []
      then broadcastRooms gameId sv else sv)"
  by (simp add: disconnect_active_def Let_def)

lemma disconnect_active_frame:
  "game_frame g (fst (disconnect_active sock gameId e (g, sv))) \<and>
   quiet sv (snd (disconnect_active sock gameId e (g, sv)))"
proof -
  obtain k a where e: "e = (k, a)" by (cases e)
  let ?g1 = "put_room a ((objs g a)\<lparr>players := remove_first (\<lambda>p. lp_socketId p = sock) (players (objs g a))\<rparr>) g"
  have f1: "game_frame g ?g1" by (rule game_frame_put_players)
  have f2: "game_frame g (?g1\<lparr>activeRooms := AList.delete k (activeRooms ?g1)\<rparr>)"
    by (rule game_frame_trans [OF f1 game_frame_activeRooms])
  have q: "quiet sv (snd (disconnect_active sock gameId (k, a) (g, sv)))"
    unfolding disconnect_active_server
    by (rule if_both [where P="quiet sv", OF quiet_broadcastRooms quiet_refl])
  have "game_frame g (fst (disconnect_active sock gameId (k, a) (g, sv)))"
  proof (cases "list_ex (\<lambda>p. lp_socketId p = sock) (players (objs g a))")
    case True
    show ?thesis
      unfolding disconnect_active_found [OF True]
      by (rule if_both [where P="game_frame g", OF f2 f1])
  next
    case False
    then show ?thesis by (simp add: disconnect_active_def game_frame_refl)
  qed
  with q show ?thesis by (simp only: e)
qed

lemma fold_frame:
  assumes step: "\<And>e g sv. game_frame g (fst (f e (g, sv))) \<and> quiet sv (snd (f e (g, sv)))"
  shows "game_frame g (fst (fold f es (g, sv))) \<and> quiet sv (snd (fold f es (g, sv)))"
proof (induction es arbitrary: g sv)
  case Nil
  show ?case by (simp add: game_frame_refl quiet_refl)
next
  case (Cons e es)
  obtain g1 sv1 where st: "f e (g, sv) = (g1, sv1)" by (cases "f e (g, sv)")
  from step [of g e sv] st have a: "game_frame g g1" "quiet sv sv1" by simp_all
  from Cons.IH [of g1 sv1] a show ?case
    by (auto simp: st intro: game_frame_trans quiet_trans)
qed

lemma disconnect_game_frame:
  "game_frame g (fst (disconnect_game sock gameId (g, sv))) \<and>
   quiet sv (snd (disconnect_game sock gameId (g, sv)))"
proof -
  obtain g1 sv1 where l: "fold (disconnect_lobby sock gameId) (rooms g) (g, sv) = (g1, sv1)"
    by (cases "fold (disconnect_lobby sock gameId) (rooms g) (g, sv)")
  have a: "game_frame g g1 \<and> quiet sv sv1"
    using fold_frame [of "disconnect_lobby sock gameId" g "rooms g" sv, OF disconnect_lobby_frame] l
    by simp
  have b: "game_frame g1 (fst (fold (disconnect_active sock gameId) (activeRooms g1) (g1, sv1))) \<and>
           quiet sv1 (snd (fold (disconnect_active sock gameId) (activeRooms g1) (g1, sv1)))"
    by (rule fold_frame [OF disconnect_active_frame])
  from a b show ?thesis
    by (auto simp: disconnect_game_def l intro: game_frame_trans quiet_trans)
qed

lemma disconnect_games_quiet: "quiet sv (snd (disconnect_games sock gs sv))"
proof (induction gs arbitrary: sv)
  case Nil
  show ?case by (simp add: quiet_refl)
next
  case (Cons e gs)
  obtain k0 g0 where e: "e = (k0, g0)" by (cases e)
  obtain g1 sv1 where st: "disconnect_game sock k0 (g0, sv) = (g1, sv1)"
    by (cases "disconnect_game sock k0 (g0, sv)")
  from disconnect_game_frame [of g0 sock k0 sv] st have "quiet sv sv1" by simp
  with Cons.IH [of sv1] show ?case
    by (auto simp: e st case_prod_unfold Let_def intro: quiet_trans)
qed

lemma disconnect_quiet: "quiet (server w) (server (disconnect w sock))"
proof -
  have "quiet (server w) (emit (Users (AList.delete sock (userList w))) (server w))"
    by (simp add: quiet_def emit_def)
  from quiet_trans [OF this disconnect_games_quiet]
  show ?thesis by (simp add: disconnect_def case_prod_unfold Let_def)
qed

lemma remove_first_none: "\<not> list_ex P xs \<Longrightarrow> remove_first P xs = xs"
  by (induction xs) auto

lemma disconnect_active_entry:
  "players (objs (fst (disconnect_active sock gameId (k, a) (g, sv))) a) =
     remove_first (\<lambda>p. lp_socketId p = sock) (players (objs g a)) \<and>
   activeRooms (fst (disconnect_active sock gameId (k, a) (g, sv))) =
     (if list_ex (\<lambda>p. lp_socketId p = sock) (players (objs g a)) \<and>
         remove_first (\<lambda>p. lp_socketId p = sock) (players (objs g a)) = []
      then AList.delete k (activeRooms g) else activeRooms g)"
proof (cases "list_ex (\<lambda>p. lp_socketId p = sock) (players (objs g a))")
  case False
  then show ?thesis by (simp add: disconnect_active_def remove_first_none)
next
  case True
  show ?thesis
  proof (cases "remove_first (\<lambda>p. lp_socketId p = sock) (players (objs g a)) = []")
    case e: True
    have "players ((objs g a)\<lparr>players := remove_first (\<lambda>p. lp_socketId p = sock) (players (objs g a))\<rparr>) = []"
      using e by simp
    from if_P [OF this] True e show ?thesis
      unfolding disconnect_active_found [OF True] by (simp add: put_room_def)
  next
    case e: False
    have "\<not> players ((objs g a)\<lparr>players := remove_first (\<lambda>p. lp_socketId p = sock) (players (objs g a))\<rparr>) = []"
      using e by simp
    from if_not_P [OF this] True e show ?thesis
      unfolding disconnect_active_found [OF True] by (simp add: put_room_def)
  qed
qed


lemma same_session_fields:
  "same_session r r1 \<Longrightarrow>
   sess r1 = sess r \<and> simulationInterval r1 = simulationInterval r \<and>
   broadcastInterval r1 = broadcastInterval r \<and> room_id r1 = room_id r"
  by (cases r; cases r1) (simp add: same_session_def)

lemma ex_left_lookup: "map_of (games ex_world_left) 1 = Some ex_game_left"
  by (simp add: ex_world_left_def disconnect_def ex_world1_def disconnect_game_def
        disconnect_lobby_def disconnect_active_def ex_game1_eq ex_game0_def blank_room_def
        ex_players_def put_room_def ex_game_left_def Let_def)

lemma ex_left_server:
  "timers (server ex_world_left) = [(0, SimulationTask 1 0), (1, BroadcastTask 1 0)] \<and>
   filter is_gameEnded (emitted (server ex_world_left)) = []"
  using disconnect_quiet [of ex_world1 2]
  by (simp add: quiet_def ex_world_left_def ex_world1_def ex_server1_eq)

lemma ex_gone_lookup: "map_of (games (disconnect ex_world_left 1)) 1 = Some ex_game_gone"
proof -
  have g: "games ex_world_left = [(1, ex_game_left)]"
    by (simp add: ex_world_left_def disconnect_def ex_world1_def disconnect_game_def
        disconnect_lobby_def disconnect_active_def ex_game1_eq ex_game0_def blank_room_def
        ex_players_def put_room_def ex_game_left_def Let_def)
  show ?thesis
    by (simp add: disconnect_def g disconnect_game_def
        disconnect_lobby_def disconnect_active_def ex_game1_eq ex_game0_def blank_room_def
        put_room_def ex_game_left_def ex_game_gone_def Let_def)
qed

text \<open>
  Claim C10. A disconnect changes nothing of a room object but its \<^verbatim>\<open>players\<close> array:
  the session (with \<^verbatim>\<open>playersMap\<close> and \<^verbatim>\<open>alivePlayers\<close>) and both interval handles of
  every room allocated stay as they were, no interval is cleared and no \<^verbatim>\<open>gameEnded\<close>
  event is emitted. The loop body for an entry of \<^verbatim>\<open>activeRooms\<close> removes the first
  entry of the socket from the array and deletes the entry of the room exactly when it
  found the socket and the array became empty. So a session deleted on this path keeps
  its two periodic tasks scheduled and the disconnected player in its alive set.
\<close>

theorem disconnect_keeps_session:
  assumes "map_of (games w) k = Some g" and "a < nextObj g"
  shows "\<exists>g1. map_of (games (disconnect w sock)) k = Some g1 \<and>
          sess (objs g1 a) = sess (objs g a) \<and>
          simulationInterval (objs g1 a) = simulationInterval (objs g a) \<and>
          broadcastInterval (objs g1 a) = broadcastInterval (objs g a) \<and>
          timers (server (disconnect w sock)) = timers (server w) \<and>
          filter is_gameEnded (emitted (server (disconnect w sock))) =
            filter is_gameEnded (emitted (server w)) \<and>
          (\<forall>h sv roomId.
             players (objs (fst (disconnect_active sock k (roomId, a) (h, sv))) a) =
               remove_first (\<lambda>p. lp_socketId p = sock) (players (objs h a)) \<and>
             activeRooms (fst (disconnect_active sock k (roomId, a) (h, sv))) =
               (if list_ex (\<lambda>p. lp_socketId p = sock) (players (objs h a)) \<and>
                   remove_first (\<lambda>p. lp_socketId p = sock) (players (objs h a)) = []
                then AList.delete roomId (activeRooms h) else activeRooms h))"
proof -
  from disconnect_lookup [OF assms(1)] obtain sv1 where
    look: "map_of (games (disconnect w sock)) k = Some (fst (disconnect_game sock k (g, sv1)))"
    by blast
  let ?g1 = "fst (disconnect_game sock k (g, sv1))"
  have "game_frame g ?g1" using disconnect_game_frame [of g sock k sv1] by simp
  with assms(2) have "same_session (objs g a) (objs ?g1 a)" by (simp add: game_frame_iff)
  note fields = same_session_fields [OF this]
  have q: "quiet (server w) (server (disconnect w sock))" by (rule disconnect_quiet)
  show ?thesis
    using look fields q disconnect_active_entry [of sock k _ a]
    by (auto simp: quiet_def)
qed

text \<open>
  The witness: in the example the second player has disconnected; when the first one
  disconnects too, the room leaves \<^verbatim>\<open>activeRooms\<close> with both intervals scheduled and
  both players in the alive set.
\<close>

theorem disconnect_keeps_session_witness:
  "\<exists>g1. map_of (games (disconnect ex_world_left 1)) 1 = Some g1 \<and>
      players (objs g1 0) = [] \<and> activeRooms g1 = [] \<and>
      sess (objs g1 0) = Some ex_session1 \<and> alivePlayers ex_session1 = [1, 2] \<and>
      simulationInterval (objs g1 0) = Some 0 \<and> broadcastInterval (objs g1 0) = Some 1 \<and>
      timers (server (disconnect ex_world_left 1)) = [(0, SimulationTask 1 0), (1, BroadcastTask 1 0)] \<and>
      filter is_gameEnded (emitted (server (disconnect ex_world_left 1))) = []"
proof -
  have n: "0 < nextObj ex_game_left"
    by (simp add: ex_game_left_def put_room_def ex_game1_eq ex_game0_def)
  have f: "sess (objs ex_game_left 0) = Some ex_session1"
      "simulationInterval (objs ex_game_left 0) = Some 0"
      "broadcastInterval (objs ex_game_left 0) = Some 1"
    by (simp_all add: ex_game_left_def put_room_def ex_game1_eq)
  have e: "players (objs ex_game_gone 0) = []" "activeRooms ex_game_gone = []"
    by (simp_all add: ex_game_gone_def put_room_def)
  have al: "alivePlayers ex_session1 = [1, 2]" by (simp add: ex_session1_def)
  from disconnect_keeps_session [OF ex_left_lookup n, of 1] ex_gone_lookup
  have "sess (objs ex_game_gone 0) = sess (objs ex_game_left 0) \<and>
        simulationInterval (objs ex_game_gone 0) = simulationInterval (objs ex_game_left 0) \<and>
        broadcastInterval (objs ex_game_gone 0) = broadcastInterval (objs ex_game_left 0) \<and>
        timers (server (disconnect ex_world_left 1)) = timers (server ex_world_left) \<and>
        filter is_gameEnded (emitted (server (disconnect ex_world_left 1))) =
          filter is_gameEnded (emitted (server ex_world_left))"
    by auto
  with f e al ex_left_server ex_gone_lookup show ?thesis by simp
qed

end
